theory Spec2Isabelle
  imports Main
begin

section \<open>JavaScript strings\<close>

text \<open>
  A JavaScript string is a sequence of UTF-16 code units. A code unit is modelled as a
  natural number (below 65536 in every string the program can build); \<open>js\<close> embeds an
  ASCII literal. \<open>String.fromCharCode\<close> converts its argument with ToUint16, that is
  modulo \<open>2 ^ 16\<close>.
\<close>

type_synonym jsstring = "nat list"

definition js :: "string \<Rightarrow> jsstring" where
  "js s = map of_char s"

definition fromCharCode :: "nat \<Rightarrow> jsstring" where
  "fromCharCode n = [n mod 65536]"

text \<open>
  The code units matched by \<open>\s\<close> in a regular expression and removed by
  \<open>String.prototype.trim\<close>: WhiteSpace and LineTerminator of ECMAScript.
\<close>

definition isWhiteSpace :: "nat \<Rightarrow> bool" where
  "isWhiteSpace c =
     (c \<in> set [9, 10, 11, 12, 13, 32, 160, 5760, 8232, 8233, 8239, 8287, 12288, 65279]
      \<or> (8192 \<le> c \<and> c \<le> 8202))"

definition trim :: "jsstring \<Rightarrow> jsstring" where
  "trim s = rev (dropWhile isWhiteSpace (rev (dropWhile isWhiteSpace s)))"

text \<open>
  A text value bound into an SQL statement is converted to UTF-8, and a text column read
  back is converted to UTF-16 again. A high surrogate followed by a low surrogate
  survives; any other surrogate code unit comes back as U+FFFD. \<open>toWellFormed s\<close> is
  the string that the store holds and returns for \<open>s\<close>.
\<close>

definition isHighSurrogate :: "nat \<Rightarrow> bool" where
  "isHighSurrogate c = (55296 \<le> c \<and> c \<le> 56319)"

definition isLowSurrogate :: "nat \<Rightarrow> bool" where
  "isLowSurrogate c = (56320 \<le> c \<and> c \<le> 57343)"

fun toWellFormed :: "jsstring \<Rightarrow> jsstring" where
  "toWellFormed [] = []"
| "toWellFormed [c] = (if isHighSurrogate c \<or> isLowSurrogate c then [65533] else [c])"
| "toWellFormed (c # d # rest) =
     (if isHighSurrogate c \<and> isLowSurrogate d then c # d # toWellFormed rest
      else if isHighSurrogate c \<or> isLowSurrogate c then 65533 # toWellFormed (d # rest)
      else c # toWellFormed (d # rest))"

text \<open>
  Canonicalize of a regular expression with the \<open>i\<close> flag and without the \<open>u\<close> flag
  maps a code unit to its upper case, and never maps a code unit from 128 on to one below
  128. Every pattern character of this program is ASCII, so folding \<open>a..z\<close> alone decides
  the same matches.
\<close>

definition canonicalize :: "nat \<Rightarrow> nat" where
  "canonicalize c = (if 97 \<le> c \<and> c \<le> 122 then c - 32 else c)"

definition charEq :: "bool \<Rightarrow> nat \<Rightarrow> nat \<Rightarrow> bool" where
  "charEq ignoreCase p c = (if ignoreCase then canonicalize c = canonicalize p else c = p)"

text \<open>The character class \<open>[A-Z]\<close>, with or without the \<open>i\<close> flag.\<close>

definition inClassAZ :: "bool \<Rightarrow> nat \<Rightarrow> bool" where
  "inClassAZ ignoreCase c =
     (if ignoreCase then 65 \<le> canonicalize c \<and> canonicalize c \<le> 90 else 65 \<le> c \<and> c \<le> 90)"

text \<open>
  \<open>lit i p s\<close> matches the literal pattern \<open>p\<close> at the start of \<open>s\<close> and returns what
  follows the match.
\<close>

fun lit :: "bool \<Rightarrow> jsstring \<Rightarrow> jsstring \<Rightarrow> jsstring option" where
  "lit i [] s = Some s"
| "lit i (p # ps) [] = None"
| "lit i (p # ps) (c # cs) = (if charEq i p c then lit i ps cs else None)"

section \<open>Response Parser (\<open>parseAgentResponse\<close>)\<close>

definition PUBLIC_HEADER :: jsstring where
  "PUBLIC_HEADER = js ''PUBLIC RESPONSE:''"

definition PRIVATE_HEADER :: jsstring where
  "PRIVATE_HEADER = js ''PRIVATE THOUGHTS:''"

record AgentResponse =
  publicResponse :: jsstring
  privateThoughts :: jsstring

text \<open>
  \<open>/PUBLIC RESPONSE:\s*([\s\S]*?)(?=PRIVATE THOUGHTS:|$)/i\<close>.
  The lazy group \<open>([\s\S]*?)\<close> followed by the lookahead takes the shortest text after
  which \<open>PRIVATE THOUGHTS:\<close> stands or the input ends (no \<open>m\<close> flag: \<open>$\<close> is the end of
  the input). It succeeds from every position, so the greedy \<open>\s*\<close> before it keeps all
  the white space it first took. \<open>publicAt\<close> is the match attempted at one position,
  \<open>publicMatch\<close> the search of \<open>String.prototype.match\<close> from left to right; both
  return capture group 1.
\<close>

fun lazyUntilPrivate :: "jsstring \<Rightarrow> jsstring" where
  "lazyUntilPrivate [] = []"
| "lazyUntilPrivate (c # cs) =
     (if lit True PRIVATE_HEADER (c # cs) \<noteq> None then [] else c # lazyUntilPrivate cs)"

definition publicAt :: "jsstring \<Rightarrow> jsstring option" where
  "publicAt s =
     (case lit True PUBLIC_HEADER s of
        None \<Rightarrow> None
      | Some r \<Rightarrow> Some (lazyUntilPrivate (dropWhile isWhiteSpace r)))"

fun publicMatch :: "jsstring \<Rightarrow> jsstring option" where
  "publicMatch [] = publicAt []"
| "publicMatch (c # cs) =
     (case publicAt (c # cs) of Some g \<Rightarrow> Some g | None \<Rightarrow> publicMatch cs)"

text \<open>
  \<open>/PRIVATE THOUGHTS:\s*([\s\S]*?)$/i\<close>: the lazy group has to reach the end of the
  input, so it captures everything after the white space that follows the header.
\<close>

definition privateAt :: "jsstring \<Rightarrow> jsstring option" where
  "privateAt s =
     (case lit True PRIVATE_HEADER s of
        None \<Rightarrow> None
      | Some r \<Rightarrow> Some (dropWhile isWhiteSpace r))"

fun privateMatch :: "jsstring \<Rightarrow> jsstring option" where
  "privateMatch [] = privateAt []"
| "privateMatch (c # cs) =
     (case privateAt (c # cs) of Some g \<Rightarrow> Some g | None \<Rightarrow> privateMatch cs)"

text \<open>
  One repetition of the group \<open>(User [A-Z]+:\s*)\<close>, returning what follows it.
  \<open>[A-Z]+\<close> is greedy and the next pattern character is \<open>:\<close>, which is no letter, so
  giving letters back never helps; likewise for \<open>\s*\<close> before the next repetition's
  \<open>U\<close>.
\<close>

definition namePrefix :: "bool \<Rightarrow> jsstring \<Rightarrow> jsstring option" where
  "namePrefix i s =
     (case lit i (js ''User '') s of
        None \<Rightarrow> None
      | Some r \<Rightarrow>
          if takeWhile (inClassAZ i) r = [] then None
          else (case dropWhile (inClassAZ i) r of
                  [] \<Rightarrow> None
                | c # cs \<Rightarrow> if c = 58 then Some (dropWhile isWhiteSpace cs) else None))"

lemma lit_length: "lit i p s = Some r \<Longrightarrow> length s = length p + length r"
  by (induction i p s rule: lit.induct) (auto split: if_splits)

lemma namePrefix_shorter: "namePrefix i s = Some r \<Longrightarrow> length r < length s"
proof -
  assume a: "namePrefix i s = Some r"
  then obtain r0 where r0: "lit i (js ''User '') s = Some r0"
    by (auto simp: namePrefix_def split: option.splits)
  from a r0 obtain c cs where d: "dropWhile (inClassAZ i) r0 = c # cs"
      and r: "r = dropWhile isWhiteSpace cs"
    by (auto simp: namePrefix_def split: list.splits if_splits)
  have "length r \<le> length cs"
    using r by (simp add: length_dropWhile_le)
  moreover have "length (c # cs) \<le> length r0"
    using d length_dropWhile_le [of "inClassAZ i" r0] by simp
  moreover have "length r0 \<le> length s"
    using lit_length [OF r0] by simp
  ultimately show ?thesis by simp
qed

text \<open>
  \<open>replace(/^(User [A-Z]+:\s*)+/, '')\<close>: the repetitions matched at the start of the
  text are removed; with none the text is unchanged. With the \<open>g\<close> flag the result is
  the same, since \<open>^\<close> matches at the start of the input only.
\<close>

function stripLeading :: "bool \<Rightarrow> jsstring \<Rightarrow> jsstring" where
  "stripLeading i s = (case namePrefix i s of None \<Rightarrow> s | Some r \<Rightarrow> stripLeading i r)"
  by pat_completeness auto
termination
  by (relation "measure (\<lambda>(i, s). length s)") (auto dest: namePrefix_shorter)

declare stripLeading.simps [simp del]

lemma stripLeading_length: "length (stripLeading i s) \<le> length s"
proof (induction i s rule: stripLeading.induct)
  case (1 i s)
  show ?case
  proof (cases "namePrefix i s")
    case None
    then show ?thesis by (simp add: stripLeading.simps [of i s])
  next
    case (Some r)
    with "1" namePrefix_shorter [OF Some] show ?thesis
      by (simp add: stripLeading.simps [of i s])
  qed
qed

text \<open>
  \<open>replace(/(User [A-Z]+:\s*){2,}/g, '')\<close>: scanning from the left, a run of two or
  more repetitions is removed as a whole and the scan goes on after it; elsewhere one
  code unit is kept and the scan moves on.
\<close>

function stripRuns :: "jsstring \<Rightarrow> jsstring" where
  "stripRuns s =
     (case (case namePrefix False s of None \<Rightarrow> None | Some r1 \<Rightarrow> namePrefix False r1) of
        Some r2 \<Rightarrow> stripRuns (stripLeading False r2)
      | None \<Rightarrow> (case s of [] \<Rightarrow> [] | c # cs \<Rightarrow> c # stripRuns cs))"
  by pat_completeness auto
termination
proof (relation "measure length")
  show "wf (measure length)" by simp
next
  fix s r2 :: jsstring
  assume "(case namePrefix False s of None \<Rightarrow> None | Some r1 \<Rightarrow> namePrefix False r1) = Some r2"
  then obtain r1 where "namePrefix False s = Some r1" "namePrefix False r1 = Some r2"
    by (auto split: option.splits)
  then have "length r2 < length s"
    using namePrefix_shorter [of False s r1] namePrefix_shorter [of False r1 r2] by simp
  then show "(stripLeading False r2, s) \<in> measure length"
    using stripLeading_length [of False r2] by simp
next
  fix s :: jsstring and c cs
  assume "s = c # cs"
  then show "(cs, s) \<in> measure length" by simp
qed

declare stripRuns.simps [simp del]

text \<open>\<open>parseAgentResponse\<close> of \<open>src/services/llm-service.ts\<close> (single provider).\<close>

definition parseAgentResponse :: "jsstring \<Rightarrow> AgentResponse" where
  "parseAgentResponse responseText =
     \<lparr>publicResponse =
        (case publicMatch responseText of
           None \<Rightarrow> responseText
         | Some g \<Rightarrow> if g \<noteq> [] then stripLeading True (trim g) else responseText),
      privateThoughts =
        (case privateMatch responseText of
           None \<Rightarrow> []
         | Some g \<Rightarrow> if g \<noteq> [] then trim g else [])\<rparr>"

text \<open>
  \<open>parseAgentResponse\<close> of the two-provider version of the adapter: the leading
  prefixes are matched case-sensitively, then runs in the middle of the text are removed.
\<close>

definition parseAgentResponseMulti :: "jsstring \<Rightarrow> AgentResponse" where
  "parseAgentResponseMulti responseText =
     \<lparr>publicResponse =
        (case publicMatch responseText of
           None \<Rightarrow> responseText
         | Some g \<Rightarrow> if g \<noteq> [] then stripRuns (stripLeading False (trim g)) else responseText),
      privateThoughts =
        (case privateMatch responseText of
           None \<Rightarrow> []
         | Some g \<Rightarrow> if g \<noteq> [] then trim g else [])\<rparr>"

section \<open>Data model (\<open>src/types\<close>)\<close>

text \<open>
  Times are the milliseconds of \<open>Date.now()\<close>. A nullable field is an \<open>option\<close>.
\<close>

record Message =
  m_id :: jsstring
  m_conversationId :: jsstring
  m_agentId :: "jsstring option"
  m_agentName :: "jsstring option"
  m_content :: jsstring
  m_isPrivate :: bool
  m_timestamp :: int

record Agent =
  a_id :: jsstring
  a_name :: jsstring
  a_systemPrompt :: jsstring
  a_privateThoughts :: "Message list"

record Conversation =
  c_id :: jsstring
  c_topic :: jsstring
  c_messages :: "Message list"
  c_agents :: "Agent list"
  c_createdAt :: int
  c_updatedAt :: int

record DbConversation =
  dbc_id :: jsstring
  dbc_topic :: jsstring
  dbc_created_at :: int
  dbc_updated_at :: int

record DbAgent =
  dba_id :: jsstring
  dba_conversation_id :: jsstring
  dba_name :: jsstring
  dba_system_prompt :: jsstring

text \<open>
  \<open>dbm_is_private\<close> stands for the column value: \<open>createMessage\<close> stores
  \<open>message.is_private ? 1 : 0\<close>, the queries compare it with 0 and 1, and
  \<open>dbMessageToMessage\<close> reads it back with \<open>Boolean\<close>; \<open>True\<close> is the stored 1.
\<close>

record DbMessage =
  dbm_id :: jsstring
  dbm_conversation_id :: jsstring
  dbm_agent_id :: "jsstring option"
  dbm_agent_name :: "jsstring option"
  dbm_content :: jsstring
  dbm_is_private :: bool
  dbm_timestamp :: int

datatype error =
    DuplicateKey
  | ForeignKeyViolation
  | NotFound int
  | TypeError

section \<open>Conversation Store (\<open>DatabaseService\<close>)\<close>

text \<open>
  The three tables hold their rows in insertion order. The schema declares \<open>id\<close> as
  the primary key of each table and the foreign keys of \<open>agents\<close> and \<open>messages\<close>;
  \<open>foreign_keys\<close> is the connection's setting that makes the engine enforce the
  latter. A failed \<open>INSERT\<close> throws and leaves the table as it was. A \<open>SELECT\<close>
  without \<open>ORDER BY\<close> is taken to scan the table in insertion order, and
  \<open>ORDER BY timestamp ASC\<close> to keep that order among equal timestamps.

  Text crosses the boundary of the engine as UTF-8. Every text bound into a statement,
  as a column value or as the parameter of a \<open>WHERE\<close> clause, reaches the engine as
  \<open>toWellFormed\<close> of it, and every text column of a row that a query returns reaches
  the program as \<open>toWellFormed\<close> of what the table holds (which is the text itself
  for a row inserted through \<open>DatabaseService\<close>).
\<close>

record database =
  tbl_conversations :: "DbConversation list"
  tbl_agents :: "DbAgent list"
  tbl_messages :: "DbMessage list"
  foreign_keys :: bool

definition conversationIds :: "database \<Rightarrow> jsstring set" where
  "conversationIds d = set (map dbc_id (tbl_conversations d))"

definition agentIds :: "database \<Rightarrow> jsstring set" where
  "agentIds d = set (map dba_id (tbl_agents d))"

definition messageIds :: "database \<Rightarrow> jsstring set" where
  "messageIds d = set (map dbm_id (tbl_messages d))"

text \<open>A row after its text columns have crossed that boundary.\<close>

definition utf8Conversation :: "DbConversation \<Rightarrow> DbConversation" where
  "utf8Conversation conversation =
     conversation\<lparr>dbc_id := toWellFormed (dbc_id conversation),
                   dbc_topic := toWellFormed (dbc_topic conversation)\<rparr>"

definition utf8Agent :: "DbAgent \<Rightarrow> DbAgent" where
  "utf8Agent agent =
     agent\<lparr>dba_id := toWellFormed (dba_id agent),
            dba_conversation_id := toWellFormed (dba_conversation_id agent),
            dba_name := toWellFormed (dba_name agent),
            dba_system_prompt := toWellFormed (dba_system_prompt agent)\<rparr>"

definition utf8Message :: "DbMessage \<Rightarrow> DbMessage" where
  "utf8Message message =
     message\<lparr>dbm_id := toWellFormed (dbm_id message),
              dbm_conversation_id := toWellFormed (dbm_conversation_id message),
              dbm_agent_id := map_option toWellFormed (dbm_agent_id message),
              dbm_agent_name := map_option toWellFormed (dbm_agent_name message),
              dbm_content := toWellFormed (dbm_content message)\<rparr>"

definition db_createConversation :: "DbConversation \<Rightarrow> database \<Rightarrow> error + database" where
  "db_createConversation conversation d =
     (let row = utf8Conversation conversation in
      if dbc_id row \<in> conversationIds d then Inl DuplicateKey
      else Inr (d\<lparr>tbl_conversations := tbl_conversations d @ [row]\<rparr>))"

definition db_createAgent :: "DbAgent \<Rightarrow> database \<Rightarrow> error + database" where
  "db_createAgent agent d =
     (let row = utf8Agent agent in
      if dba_id row \<in> agentIds d then Inl DuplicateKey
      else if foreign_keys d \<and> dba_conversation_id row \<notin> conversationIds d
        then Inl ForeignKeyViolation
      else Inr (d\<lparr>tbl_agents := tbl_agents d @ [row]\<rparr>))"

definition db_createMessage :: "DbMessage \<Rightarrow> database \<Rightarrow> error + database" where
  "db_createMessage message d =
     (let row = utf8Message message in
      if dbm_id row \<in> messageIds d then Inl DuplicateKey
      else if foreign_keys d \<and> dbm_conversation_id row \<notin> conversationIds d
        then Inl ForeignKeyViolation
      else if foreign_keys d \<and>
          (case dbm_agent_id row of None \<Rightarrow> False | Some a \<Rightarrow> a \<notin> agentIds d)
        then Inl ForeignKeyViolation
      else Inr (d\<lparr>tbl_messages := tbl_messages d @ [row]\<rparr>))"

definition getConversation :: "jsstring \<Rightarrow> database \<Rightarrow> DbConversation option" where
  "getConversation ident d =
     map_option utf8Conversation
       (find (\<lambda>c. dbc_id c = toWellFormed ident) (tbl_conversations d))"

definition getAgentsForConversation :: "jsstring \<Rightarrow> database \<Rightarrow> DbAgent list" where
  "getAgentsForConversation conversationId d =
     map utf8Agent
       (filter (\<lambda>a. dba_conversation_id a = toWellFormed conversationId) (tbl_agents d))"

definition getPublicMessagesForConversation :: "jsstring \<Rightarrow> database \<Rightarrow> DbMessage list" where
  "getPublicMessagesForConversation conversationId d =
     map utf8Message
       (sort_key dbm_timestamp
          (filter (\<lambda>m. dbm_conversation_id m = toWellFormed conversationId
                       \<and> \<not> dbm_is_private m)
             (tbl_messages d)))"

definition getPrivateMessagesForAgent :: "jsstring \<Rightarrow> database \<Rightarrow> DbMessage list" where
  "getPrivateMessagesForAgent agentId d =
     map utf8Message
       (sort_key dbm_timestamp
          (filter (\<lambda>m. dbm_agent_id m = Some (toWellFormed agentId) \<and> dbm_is_private m)
             (tbl_messages d)))"

definition dbMessageToMessage :: "DbMessage \<Rightarrow> Message" where
  "dbMessageToMessage dbMessage =
     \<lparr>m_id = dbm_id dbMessage,
      m_conversationId = dbm_conversation_id dbMessage,
      m_agentId = dbm_agent_id dbMessage,
      m_agentName = dbm_agent_name dbMessage,
      m_content = dbm_content dbMessage,
      m_isPrivate = dbm_is_private dbMessage,
      m_timestamp = dbm_timestamp dbMessage\<rparr>"

definition db_loadConversation :: "jsstring \<Rightarrow> database \<Rightarrow> Conversation option" where
  "db_loadConversation conversationId d =
     (case getConversation conversationId d of
        None \<Rightarrow> None
      | Some dbConversation \<Rightarrow>
          Some \<lparr>c_id = dbc_id dbConversation,
                c_topic = dbc_topic dbConversation,
                c_messages =
                  map dbMessageToMessage (getPublicMessagesForConversation conversationId d),
                c_agents =
                  map (\<lambda>dbAgent.
                         \<lparr>a_id = dba_id dbAgent,
                          a_name = dba_name dbAgent,
                          a_systemPrompt = dba_system_prompt dbAgent,
                          a_privateThoughts =
                            map dbMessageToMessage
                              (getPrivateMessagesForAgent (dba_id dbAgent) d)\<rparr>)
                      (getAgentsForConversation conversationId d),
                c_createdAt = dbc_created_at dbConversation,
                c_updatedAt = dbc_updated_at dbConversation\<rparr>)"

text \<open>
  \<open>DatabaseService\<close> has no other method. In particular it has no
  \<open>updateConversation\<close>, which \<open>AgentService.generateAgentResponse\<close> calls.
\<close>

section \<open>Helpers (\<open>src/utils\<close>)\<close>

definition indexToLetters :: "nat \<Rightarrow> jsstring" where
  "indexToLetters index =
     (if index < 26 then fromCharCode (65 + index)
      else fromCharCode (65 + index div 26 - 1) @ fromCharCode (65 + index mod 26))"

section \<open>Model Backend Adapter (\<open>LlmService\<close>)\<close>

datatype role = RoleSystem | RoleAssistant | RoleUser

record ChatMessage =
  role :: role
  content :: jsstring

text \<open>
  What one call of \<open>chat.completions.create\<close> does: it throws or rejects
  (\<open>Rejected e\<close>, with \<open>e\<close> the text that the template literal \<open>${error}\<close> renders), or
  it resolves (\<open>Completed c\<close>, with \<open>c\<close> the value of
  \<open>response.choices[0]?.message?.content\<close>, \<open>None\<close> when it is undefined or null).
\<close>

datatype dispatch_result = Rejected jsstring | Completed "jsstring option"

datatype provider = OpenAI | Groq | OtherProvider jsstring

text \<open>
  The surroundings of the adapter: the provider's answer to the \<open>k\<close>-th dispatch, the
  milliseconds that dispatch takes, by how long the timer of the \<open>k\<close>-th call
  oversleeps, the configured \<open>rateLimit\<close> and (two-provider version) the configured
  provider.
\<close>

record backend =
  dispatch :: "nat \<Rightarrow> ChatMessage list \<Rightarrow> dispatch_result"
  latency :: "nat \<Rightarrow> nat"
  timerLag :: "nat \<Rightarrow> nat"
  rateLimit :: nat
  modelProvider :: provider

text \<open>
  The fields of an \<open>LlmService\<close> instance. \<open>dispatchLog\<close> is not a field of the
  class: it records, oldest first, every dispatch that was issued, as the clock reading
  at which it was issued, the \<open>lastResetTime\<close> of the window it was issued in, and
  whether it resolved. Its length numbers the dispatches.
\<close>

record LlmService =
  requestCount :: nat
  lastResetTime :: int
  dispatchLog :: "(int \<times> int \<times> bool) list"

fun joinWith :: "jsstring \<Rightarrow> jsstring list \<Rightarrow> jsstring" where
  "joinWith sep [] = []"
| "joinWith sep [x] = x"
| "joinWith sep (x # y # ys) = x @ sep @ joinWith sep (y # ys)"

definition formatMessagesForApi ::
  "jsstring \<Rightarrow> jsstring \<Rightarrow> Message list \<Rightarrow> Message list \<Rightarrow> ChatMessage list" where
  "formatMessagesForApi agentName systemPrompt messages thoughts =
     (let systemMessage =
            \<lparr>role = RoleSystem,
             content = systemPrompt @ js ''\<newline>\<newline>Your name is '' @ agentName
               @ js ''. You are participating in a round-table discussion with other agents.''
               @ js ''\<newline>\<newline>Your response should be in the following format:''
               @ js ''\<newline>\<newline>PUBLIC RESPONSE:\<newline>''
               @ js ''[Your message that will be shared with all participants]''
               @ js ''\<newline>\<newline>PRIVATE THOUGHTS:\<newline>''
               @ js ''[Your private thoughts that only you will see]''\<rparr>;
          historyMessages =
            map (\<lambda>msg.
                   case m_agentName msg of
                     None \<Rightarrow> \<lparr>role = RoleUser, content = m_content msg\<rparr>
                   | Some n \<Rightarrow>
                       if n \<noteq> []
                       then \<lparr>role = RoleAssistant, content = n @ js '': '' @ m_content msg\<rparr>
                       else \<lparr>role = RoleUser, content = m_content msg\<rparr>)
              messages;
          privateThoughtsMessages =
            (if length thoughts > 0
             then [\<lparr>role = RoleSystem,
                    content =
                      js ''Your previous private thoughts (only visible to you):\<newline>\<newline>''
                      @ joinWith (js ''\<newline>\<newline>'')
                          (map (\<lambda>thought. js ''- '' @ m_content thought) thoughts)\<rparr>]
             else [])
      in [systemMessage] @ privateThoughtsMessages @ historyMessages)"

text \<open>
  \<open>checkRateLimit\<close> on the clock reading \<open>now\<close>. Awaiting the timer moves the clock
  by \<open>waitTimeMs\<close> and the timer's lag; the second \<open>Date.now()\<close> reads that time.
\<close>

definition checkRateLimit :: "backend \<Rightarrow> int \<times> LlmService \<Rightarrow> int \<times> LlmService" where
  "checkRateLimit b = (\<lambda>(now, this).
     (let elapsedMs = now - lastResetTime this in
      if elapsedMs \<ge> 60000
      then (now, this\<lparr>requestCount := 0, lastResetTime := now\<rparr>)
      else if requestCount this \<ge> rateLimit b
      then (let waitTimeMs = 60000 - elapsedMs;
                woken = now + waitTimeMs + int (timerLag b (length (dispatchLog this)))
            in (woken, this\<lparr>requestCount := 0, lastResetTime := woken\<rparr>))
      else (now, this)))"

definition fallbackResponse :: "jsstring \<Rightarrow> jsstring \<Rightarrow> AgentResponse" where
  "fallbackResponse agentName e =
     \<lparr>publicResponse = agentName @ js '' is unable to respond at the moment.'',
      privateThoughts = js ''Error generating response: '' @ e\<rparr>"

text \<open>
  An adapter takes the agent's name and prompt, the history and the private thoughts,
  the clock and its own state, and returns the response, the clock when the call
  returns, and its state. It has no access to the store.
\<close>

type_synonym adapter =
  "jsstring \<Rightarrow> jsstring \<Rightarrow> Message list \<Rightarrow> Message list \<Rightarrow> int \<times> LlmService
     \<Rightarrow> AgentResponse \<times> int \<times> LlmService"

text \<open>
  \<open>LlmService.generateAgentResponse\<close> of \<open>src/services/llm-service.ts\<close>: the
  \<open>try\<close> block holds the dispatch, the increment of the counter and the parse; the
  \<open>catch\<close> block returns the fallback.
\<close>

definition llm_generateAgentResponse :: "backend \<Rightarrow> adapter" where
  "llm_generateAgentResponse b agentName systemPrompt messages thoughts = (\<lambda>(now, this).
     (let (issued, this1) = checkRateLimit b (now, this);
          formattedMessages = formatMessagesForApi agentName systemPrompt messages thoughts;
          k = length (dispatchLog this1);
          logged = (\<lambda>resolved.
            this1\<lparr>dispatchLog :=
                    dispatchLog this1 @ [(issued, lastResetTime this1, resolved)]\<rparr>);
          returned = issued + int (latency b k)
      in case dispatch b k formattedMessages of
           Completed c \<Rightarrow>
             (parseAgentResponse (case c of None \<Rightarrow> [] | Some s \<Rightarrow> s),
              returned, (logged True)\<lparr>requestCount := requestCount this1 + 1\<rparr>)
         | Rejected e \<Rightarrow> (fallbackResponse agentName e, returned, logged False)))"

text \<open>
  The two-provider version: \<open>openai\<close> and \<open>groq\<close> dispatch the same request; any
  other configured provider throws inside the \<open>try\<close> block before a dispatch.
\<close>

definition llm_generateAgentResponseMulti :: "backend \<Rightarrow> adapter" where
  "llm_generateAgentResponseMulti b agentName systemPrompt messages thoughts = (\<lambda>(now, this).
     (let (issued, this1) = checkRateLimit b (now, this);
          formattedMessages = formatMessagesForApi agentName systemPrompt messages thoughts;
          k = length (dispatchLog this1);
          logged = (\<lambda>resolved.
            this1\<lparr>dispatchLog :=
                    dispatchLog this1 @ [(issued, lastResetTime this1, resolved)]\<rparr>);
          returned = issued + int (latency b k)
      in case modelProvider b of
           OtherProvider p \<Rightarrow>
             (fallbackResponse agentName (js ''Error: Unsupported model provider: '' @ p),
              issued, this1)
         | _ \<Rightarrow>
             (case dispatch b k formattedMessages of
                Completed c \<Rightarrow>
                  (parseAgentResponseMulti (case c of None \<Rightarrow> [] | Some s \<Rightarrow> s),
                   returned, (logged True)\<lparr>requestCount := requestCount this1 + 1\<rparr>)
              | Rejected e \<Rightarrow> (fallbackResponse agentName e, returned, logged False))))"

section \<open>Turn Engine (\<open>AgentService\<close>)\<close>

text \<open>
  The state outside the conversation aggregate: the store, the clock that
  \<open>Date.now()\<close> reads, the number of identifiers \<open>uuidv4()\<close> has handed out, and the
  adapter instance. \<open>uuidv4\<close> is modelled by the sequence of its results: the
  \<open>k\<close>-th call returns \<open>uuidv4 k\<close>. The adapter is the constructor's \<open>llmService\<close>.
\<close>

record world =
  w_db :: database
  w_clock :: int
  w_uuids :: nat
  w_llm :: LlmService

definition baseSystemPrompt :: jsstring where
  "baseSystemPrompt =
     js ''You are an intelligent agent participating in a round-table discussion with other agents. ''
     @ js ''\<newline>Your goal is to engage in thoughtful conversation, share insights, and respond to other participants.''
     @ js ''\<newline>Be respectful, insightful, and contribute meaningfully to the discussion.''"

text \<open>
  The body of the loop \<open>for (let i = 0; i < numAgents; i++)\<close> of
  \<open>createConversation\<close>, run over the indices \<open>[0..<numAgents]\<close>. A failed insert
  throws out of the loop.
\<close>

primrec createAgents ::
  "(nat \<Rightarrow> jsstring) \<Rightarrow> jsstring \<Rightarrow> nat list \<Rightarrow> Agent list \<Rightarrow> world
     \<Rightarrow> (error + Agent list) \<times> world" where
  "createAgents uuidv4 conversationId [] agents w = (Inr agents, w)"
| "createAgents uuidv4 conversationId (i # rest) agents w =
     (let agentId = uuidv4 (w_uuids w);
          w1 = w\<lparr>w_uuids := w_uuids w + 1\<rparr>;
          agentName = js ''User '' @ fromCharCode (65 + i);
          systemPrompt = baseSystemPrompt
      in case db_createAgent
                \<lparr>dba_id = agentId, dba_conversation_id = conversationId,
                 dba_name = agentName, dba_system_prompt = systemPrompt\<rparr> (w_db w1) of
           Inl e \<Rightarrow> (Inl e, w1)
         | Inr d \<Rightarrow>
             createAgents uuidv4 conversationId rest
               (agents @ [\<lparr>a_id = agentId, a_name = agentName,
                           a_systemPrompt = systemPrompt, a_privateThoughts = []\<rparr>])
               (w1\<lparr>w_db := d\<rparr>))"

definition createConversation ::
  "(nat \<Rightarrow> jsstring) \<Rightarrow> jsstring \<Rightarrow> nat \<Rightarrow> world \<Rightarrow> (error + Conversation) \<times> world" where
  "createConversation uuidv4 topic numAgents w =
     (let conversationId = uuidv4 (w_uuids w);
          w1 = w\<lparr>w_uuids := w_uuids w + 1\<rparr>;
          now = w_clock w1
      in case db_createConversation
                \<lparr>dbc_id = conversationId, dbc_topic = topic,
                 dbc_created_at = now, dbc_updated_at = now\<rparr> (w_db w1) of
           Inl e \<Rightarrow> (Inl e, w1)
         | Inr d1 \<Rightarrow>
             (case createAgents uuidv4 conversationId [0..<numAgents] [] (w1\<lparr>w_db := d1\<rparr>) of
                (Inl e, w2) \<Rightarrow> (Inl e, w2)
              | (Inr agents, w2) \<Rightarrow>
                  (let initialMessageId = uuidv4 (w_uuids w2);
                       w3 = w2\<lparr>w_uuids := w_uuids w2 + 1\<rparr>;
                       initialMessage =
                         \<lparr>m_id = initialMessageId, m_conversationId = conversationId,
                          m_agentId = None, m_agentName = None,
                          m_content = js ''Let's discuss the following topic: '' @ topic,
                          m_isPrivate = False, m_timestamp = now\<rparr>
                   in case db_createMessage
                             \<lparr>dbm_id = initialMessageId, dbm_conversation_id = conversationId,
                              dbm_agent_id = None, dbm_agent_name = None,
                              dbm_content = m_content initialMessage,
                              dbm_is_private = False, dbm_timestamp = now\<rparr> (w_db w3) of
                        Inl e \<Rightarrow> (Inl e, w3)
                      | Inr d3 \<Rightarrow>
                          (Inr \<lparr>c_id = conversationId, c_topic = topic,
                                c_messages = [initialMessage], c_agents = agents,
                                c_createdAt = now, c_updatedAt = now\<rparr>,
                           w3\<lparr>w_db := d3\<rparr>))))"

text \<open>
  The context handed to the adapter: the public messages so far and the agent's own
  private thoughts.
\<close>

definition publicMessagesOf :: "Conversation \<Rightarrow> Message list" where
  "publicMessagesOf conversation = filter (\<lambda>msg. \<not> m_isPrivate msg) (c_messages conversation)"

text \<open>
  \<open>generateAgentResponse\<close> returns the error thrown (if any), the caller's aggregate
  as the call leaves it (the source mutates it in place and returns the same object)
  and the state. \<open>agentIndex\<close> is any integer; \<open>conversation.agents[agentIndex]\<close> is
  undefined outside the array. After the two inserts and the update of the aggregate the
  source calls \<open>this.dbService.updateConversation\<close>. \<open>DatabaseService\<close> defines no
  such method, so the call throws a TypeError: the statement \<open>return conversation\<close>
  is never reached.
\<close>

definition generateAgentResponse ::
  "adapter \<Rightarrow> (nat \<Rightarrow> jsstring) \<Rightarrow> Conversation \<Rightarrow> int \<Rightarrow> world
     \<Rightarrow> error option \<times> Conversation \<times> world" where
  "generateAgentResponse llmService uuidv4 conversation agentIndex w =
     (if agentIndex < 0 \<or> int (length (c_agents conversation)) \<le> agentIndex
      then (Some (NotFound agentIndex), conversation, w)
      else
        (let agent = c_agents conversation ! nat agentIndex;
             publicMessages = publicMessagesOf conversation;
             thoughts = a_privateThoughts agent;
             (response, returned, llm1) =
               llmService (a_name agent) (a_systemPrompt agent) publicMessages thoughts
                 (w_clock w, w_llm w);
             w1 = w\<lparr>w_clock := returned, w_llm := llm1\<rparr>;
             now = w_clock w1;
             publicMessageId = uuidv4 (w_uuids w1);
             w2 = w1\<lparr>w_uuids := w_uuids w1 + 1\<rparr>;
             publicMessage =
               \<lparr>m_id = publicMessageId, m_conversationId = c_id conversation,
                m_agentId = Some (a_id agent), m_agentName = Some (a_name agent),
                m_content = publicResponse response, m_isPrivate = False,
                m_timestamp = now\<rparr>
         in case db_createMessage
                   \<lparr>dbm_id = publicMessageId, dbm_conversation_id = c_id conversation,
                    dbm_agent_id = Some (a_id agent), dbm_agent_name = Some (a_name agent),
                    dbm_content = publicResponse response, dbm_is_private = False,
                    dbm_timestamp = now\<rparr> (w_db w2) of
              Inl e \<Rightarrow> (Some e, conversation, w2)
            | Inr d1 \<Rightarrow>
                (let w3 = w2\<lparr>w_db := d1\<rparr>;
                     privateThoughtId = uuidv4 (w_uuids w3);
                     w4 = w3\<lparr>w_uuids := w_uuids w3 + 1\<rparr>;
                     privateThought =
                       \<lparr>m_id = privateThoughtId, m_conversationId = c_id conversation,
                        m_agentId = Some (a_id agent), m_agentName = Some (a_name agent),
                        m_content = privateThoughts response, m_isPrivate = True,
                        m_timestamp = now\<rparr>
                 in case db_createMessage
                           \<lparr>dbm_id = privateThoughtId, dbm_conversation_id = c_id conversation,
                            dbm_agent_id = Some (a_id agent),
                            dbm_agent_name = Some (a_name agent),
                            dbm_content = privateThoughts response, dbm_is_private = True,
                            dbm_timestamp = now\<rparr> (w_db w4) of
                      Inl e \<Rightarrow> (Some e, conversation, w4)
                    | Inr d2 \<Rightarrow>
                        (Some TypeError,
                         conversation
                           \<lparr>c_messages := c_messages conversation @ [publicMessage],
                            c_agents := (c_agents conversation)
                              [nat agentIndex :=
                                 agent\<lparr>a_privateThoughts :=
                                          a_privateThoughts agent @ [privateThought]\<rparr>],
                            c_updatedAt := now\<rparr>,
                         w4\<lparr>w_db := d2\<rparr>))))"

text \<open>
  The inner loop of \<open>runConversation\<close> over \<open>agentIndex\<close> in \<open>[0..<numAgents]\<close> and
  the outer loop over the turns; an error thrown by \<open>generateAgentResponse\<close> leaves
  both.
\<close>

primrec agentLoop ::
  "adapter \<Rightarrow> (nat \<Rightarrow> jsstring) \<Rightarrow> nat list \<Rightarrow> Conversation \<Rightarrow> world
     \<Rightarrow> error option \<times> Conversation \<times> world" where
  "agentLoop llmService uuidv4 [] currentConversation w = (None, currentConversation, w)"
| "agentLoop llmService uuidv4 (agentIndex # rest) currentConversation w =
     (case generateAgentResponse llmService uuidv4 currentConversation (int agentIndex) w of
        (Some e, c', w') \<Rightarrow> (Some e, c', w')
      | (None, c', w') \<Rightarrow> agentLoop llmService uuidv4 rest c' w')"

primrec turnLoop ::
  "adapter \<Rightarrow> (nat \<Rightarrow> jsstring) \<Rightarrow> nat \<Rightarrow> nat \<Rightarrow> Conversation \<Rightarrow> world
     \<Rightarrow> error option \<times> Conversation \<times> world" where
  "turnLoop llmService uuidv4 numAgents 0 currentConversation w = (None, currentConversation, w)"
| "turnLoop llmService uuidv4 numAgents (Suc turnsLeft) currentConversation w =
     (case agentLoop llmService uuidv4 [0..<numAgents] currentConversation w of
        (Some e, c', w') \<Rightarrow> (Some e, c', w')
      | (None, c', w') \<Rightarrow> turnLoop llmService uuidv4 numAgents turnsLeft c' w')"

text \<open>
  \<open>runConversation\<close>: logging \<open>conversation.messages[0].content\<close> throws a TypeError
  when the conversation has no message. The returned aggregate is the shallow copy
  \<open>currentConversation\<close>, which shares its message and agent arrays with the caller's.
\<close>

definition runConversation ::
  "adapter \<Rightarrow> (nat \<Rightarrow> jsstring) \<Rightarrow> Conversation \<Rightarrow> nat \<Rightarrow> world
     \<Rightarrow> error option \<times> Conversation \<times> world" where
  "runConversation llmService uuidv4 conversation numTurns w =
     (let numAgents = length (c_agents conversation) in
      if c_messages conversation = [] then (Some TypeError, conversation, w)
      else turnLoop llmService uuidv4 numAgents numTurns conversation w)"

definition loadConversation :: "jsstring \<Rightarrow> world \<Rightarrow> Conversation option" where
  "loadConversation conversationId w = db_loadConversation conversationId (w_db w)"

section \<open>Notions of the specification and sample inputs\<close>



text \<open>
  The public message or private thought that \<open>generateAgentResponse\<close> builds for an
  agent, and the row it inserts for it.
\<close>

definition turnMessage ::
  "Conversation \<Rightarrow> Agent \<Rightarrow> jsstring \<Rightarrow> jsstring \<Rightarrow> bool \<Rightarrow> int \<Rightarrow> Message" where
  "turnMessage conversation agent ident text private now =
     \<lparr>m_id = ident, m_conversationId = c_id conversation, m_agentId = Some (a_id agent),
      m_agentName = Some (a_name agent), m_content = text, m_isPrivate = private,
      m_timestamp = now\<rparr>"

definition turnRow ::
  "Conversation \<Rightarrow> Agent \<Rightarrow> jsstring \<Rightarrow> jsstring \<Rightarrow> bool \<Rightarrow> int \<Rightarrow> DbMessage" where
  "turnRow conversation agent ident text private now =
     \<lparr>dbm_id = ident, dbm_conversation_id = c_id conversation, dbm_agent_id = Some (a_id agent),
      dbm_agent_name = Some (a_name agent), dbm_content = text, dbm_is_private = private,
      dbm_timestamp = now\<rparr>"

text \<open>
  The store accepts the two inserts of a call of \<open>generateAgentResponse\<close> for an
  agent: the next two identifiers, as the store holds them, differ from each other and
  from the stored message ids, and, where foreign keys are enforced, the conversation
  and the agent are rows of the store.
\<close>

definition storeAccepts ::
  "(nat \<Rightarrow> jsstring) \<Rightarrow> nat \<Rightarrow> Conversation \<Rightarrow> Agent \<Rightarrow> database \<Rightarrow> bool" where
  "storeAccepts uuidv4 k conversation agent d =
     (toWellFormed (uuidv4 k) \<notin> messageIds d
      \<and> toWellFormed (uuidv4 (Suc k)) \<notin> messageIds d
      \<and> toWellFormed (uuidv4 k) \<noteq> toWellFormed (uuidv4 (Suc k))
      \<and> (foreign_keys d \<longrightarrow>
            toWellFormed (c_id conversation) \<in> conversationIds d
            \<and> toWellFormed (a_id agent) \<in> agentIds d))"

text \<open>
  The invariant of the rate limiter, on the clock reading and the adapter's state: the
  window has started; every logged dispatch was issued inside its window, less than 60
  seconds after the window's start, and no later than now; \<open>requestCount\<close> is the
  number of resolved dispatches of the current window; and no window has more resolved
  dispatches than the larger of 1 and \<open>rateLimit\<close>.
\<close>

definition limiterInvariant :: "backend \<Rightarrow> int \<times> LlmService \<Rightarrow> bool" where
  "limiterInvariant b = (\<lambda>(now, this).
     lastResetTime this \<le> now
     \<and> (\<forall>(t, s, ok)\<in>set (dispatchLog this).
           s \<le> t \<and> t < s + 60000 \<and> t \<le> now \<and> s \<le> lastResetTime this)
     \<and> requestCount this
         = length (filter (\<lambda>(t, s, ok). ok \<and> s = lastResetTime this) (dispatchLog this))
     \<and> (\<forall>s. length (filter (\<lambda>(t, s', ok). ok \<and> s' = s) (dispatchLog this))
              \<le> max 1 (rateLimit b)))"

text \<open>
  The two channels of a transcript are separated: the conversation's message sequence
  holds public messages only, and every private thought of an agent is private and
  authored by that agent.
\<close>

definition transcriptSeparated :: "Conversation \<Rightarrow> bool" where
  "transcriptSeparated c =
     ((\<forall>m\<in>set (c_messages c). \<not> m_isPrivate m)
      \<and> (\<forall>a\<in>set (c_agents c). \<forall>m\<in>set (a_privateThoughts a).
            m_isPrivate m \<and> m_agentId m = Some (a_id a)))"

text \<open>
  A string is well formed when it has no unpaired surrogate: the store returns it as it
  was given.
\<close>

definition wellFormed :: "jsstring \<Rightarrow> bool" where
  "wellFormed s = (toWellFormed s = s)"

text \<open>
  The store's references are intact: the conversation of every agent row and of every
  message row exists, and so does the agent of every message row that has one.
\<close>

definition referentialIntegrity :: "database \<Rightarrow> bool" where
  "referentialIntegrity d =
     ((\<forall>a\<in>set (tbl_agents d). dba_conversation_id a \<in> conversationIds d)
      \<and> (\<forall>m\<in>set (tbl_messages d).
            dbm_conversation_id m \<in> conversationIds d
            \<and> (\<forall>x. dbm_agent_id m = Some x \<longrightarrow> x \<in> agentIds d)))"

text \<open>
  The next \<open>m\<close> identifiers of \<open>uuidv4\<close> are new: they differ from each other and
  from every primary key in the store.
\<close>

definition freshIds :: "(nat \<Rightarrow> jsstring) \<Rightarrow> nat \<Rightarrow> nat \<Rightarrow> database \<Rightarrow> bool" where
  "freshIds uuidv4 k m d =
     (distinct (map uuidv4 [k..<k + m])
      \<and> (\<forall>j<m. uuidv4 (k + j) \<notin> conversationIds d \<union> agentIds d \<union> messageIds d))"

text \<open>The next \<open>m\<close> identifiers of \<open>uuidv4\<close> are well formed.\<close>

definition wellFormedIds :: "(nat \<Rightarrow> jsstring) \<Rightarrow> nat \<Rightarrow> nat \<Rightarrow> bool" where
  "wellFormedIds uuidv4 k m = (\<forall>j<m. wellFormed (uuidv4 (k + j)))"

text \<open>The row that \<open>createConversation\<close> inserts for an agent.\<close>

definition agentRow :: "jsstring \<Rightarrow> Agent \<Rightarrow> DbAgent" where
  "agentRow conversationId a =
     \<lparr>dba_id = a_id a, dba_conversation_id = conversationId, dba_name = a_name a,
      dba_system_prompt = a_systemPrompt a\<rparr>"

text \<open>
  A sample run: identifiers \<open>id-0\<close>, \<open>id-1\<close>, ..., a store that already holds one
  conversation with two agents and its seed message, and backends that answer every
  dispatch alike.
\<close>

definition demoUuid :: "nat \<Rightarrow> jsstring" where
  "demoUuid k = js ''id-'' @ [48 + k]"

definition demoSeed :: Message where
  "demoSeed =
     \<lparr>m_id = js ''m1'', m_conversationId = js ''c1'', m_agentId = None, m_agentName = None,
      m_content = js ''Let's discuss the following topic: t'', m_isPrivate = False,
      m_timestamp = 1000\<rparr>"

definition demoConversation :: Conversation where
  "demoConversation =
     \<lparr>c_id = js ''c1'', c_topic = js ''t'', c_messages = [demoSeed],
      c_agents = [\<lparr>a_id = js ''a1'', a_name = js ''User A'', a_systemPrompt = js ''p'',
                   a_privateThoughts = []\<rparr>,
                  \<lparr>a_id = js ''a2'', a_name = js ''User B'', a_systemPrompt = js ''p'',
                   a_privateThoughts = []\<rparr>],
      c_createdAt = 1000, c_updatedAt = 1000\<rparr>"

definition demoDb :: database where
  "demoDb =
     \<lparr>tbl_conversations =
        [\<lparr>dbc_id = js ''c1'', dbc_topic = js ''t'', dbc_created_at = 1000,
          dbc_updated_at = 1000\<rparr>],
      tbl_agents =
        [\<lparr>dba_id = js ''a1'', dba_conversation_id = js ''c1'', dba_name = js ''User A'',
          dba_system_prompt = js ''p''\<rparr>,
         \<lparr>dba_id = js ''a2'', dba_conversation_id = js ''c1'', dba_name = js ''User B'',
          dba_system_prompt = js ''p''\<rparr>],
      tbl_messages =
        [\<lparr>dbm_id = js ''m1'', dbm_conversation_id = js ''c1'', dbm_agent_id = None,
          dbm_agent_name = None, dbm_content = js ''Let's discuss the following topic: t'',
          dbm_is_private = False, dbm_timestamp = 1000\<rparr>],
      foreign_keys = True\<rparr>"

definition demoWorld :: world where
  "demoWorld =
     \<lparr>w_db = demoDb, w_clock = 2000, w_uuids = 0,
      w_llm = \<lparr>requestCount = 0, lastResetTime = 1000, dispatchLog = []\<rparr>\<rparr>"

definition answeringBackend :: backend where
  "answeringBackend =
     \<lparr>dispatch = (\<lambda>k request. Completed (Some (js ''PUBLIC RESPONSE: hi PRIVATE THOUGHTS: hm''))),
      latency = (\<lambda>k. 5), timerLag = (\<lambda>k. 0), rateLimit = 2, modelProvider = OpenAI\<rparr>"

definition failingBackend :: backend where
  "failingBackend =
     \<lparr>dispatch = (\<lambda>k request. Rejected (js ''Error: boom'')),
      latency = (\<lambda>k. 5), timerLag = (\<lambda>k. 0), rateLimit = 1, modelProvider = Groq\<rparr>"

definition silentBackend :: backend where
  "silentBackend =
     \<lparr>dispatch = (\<lambda>k request. Completed None),
      latency = (\<lambda>k. 5), timerLag = (\<lambda>k. 0), rateLimit = 2, modelProvider = OpenAI\<rparr>"

text \<open>
  An adapter that answers like \<open>llmService\<close> on a history of public messages and
  with an empty response on any other history.
\<close>

definition pickyAdapter :: "adapter \<Rightarrow> adapter" where
  "pickyAdapter llmService agentName systemPrompt messages thoughts s =
     (if list_all (\<lambda>m. \<not> m_isPrivate m) messages
      then llmService agentName systemPrompt messages thoughts s
      else (\<lparr>publicResponse = [], privateThoughts = []\<rparr>, s))"

text \<open>Two calls of the adapter in a row, on a backend that rejects every dispatch.\<close>

definition twoFailedCalls :: "int \<times> LlmService" where
  "twoFailedCalls =
     (let (r1, t1, s1) = llm_generateAgentResponse failingBackend (js ''User A'') (js ''p'') [] []
            (1000, \<lparr>requestCount = 0, lastResetTime = 1000, dispatchLog = []\<rparr>);
          (r2, t2, s2) = llm_generateAgentResponse failingBackend (js ''User A'') (js ''p'') [] []
            (t1, s1)
      in (t2, s2))"

section \<open>The Response Parser without its headers\<close>









section \<open>Lookup misses\<close>

text \<open>
  C9. For an \<open>agentIndex\<close> outside the conversation's agent list,
  \<open>generateAgentResponse\<close> throws the not-found error and leaves the aggregate, the
  store and the rest of the state as they were: no message is created and
  \<open>updatedAt\<close> is unchanged.
\<close>

theorem C9_agent_index_out_of_range:
  "agentIndex < 0 \<or> int (length (c_agents conversation)) \<le> agentIndex \<Longrightarrow>
     generateAgentResponse llmService uuidv4 conversation agentIndex w
       = (Some (NotFound agentIndex), conversation, w)"
  by (simp add: generateAgentResponse_def)

theorem C9_agent_index_out_of_range_witness:
  "generateAgentResponse (llm_generateAgentResponse answeringBackend) demoUuid
      demoConversation 2 demoWorld = (Some (NotFound 2), demoConversation, demoWorld)
   \<and> generateAgentResponse (llm_generateAgentResponse answeringBackend) demoUuid
      demoConversation (- 1) demoWorld = (Some (NotFound (- 1)), demoConversation, demoWorld)"
  using C9_agent_index_out_of_range [of 2 demoConversation]
    C9_agent_index_out_of_range [of "- 1" demoConversation]
  by (simp add: demoConversation_def)

section \<open>Name prefixes\<close>








section \<open>Empty completions\<close>

lemma checkRateLimit_log [simp]: "dispatchLog (snd (checkRateLimit b (now, this))) = dispatchLog this"
  by (simp add: checkRateLimit_def Let_def)

lemma parseAgentResponse_empty: "parseAgentResponse [] = \<lparr>publicResponse = [], privateThoughts = []\<rparr>"
  by (simp add: parseAgentResponse_def publicAt_def privateAt_def PUBLIC_HEADER_def
      PRIVATE_HEADER_def js_def)

text \<open>
  C5, as amended. When the dispatch resolves with an empty or absent content, the
  adapter parses the empty text: both fields of the response are empty, and the call
  is counted as a successful dispatch. The fallback is not returned.
\<close>

theorem C5_empty_completion:
  assumes "dispatch b (length (dispatchLog this))
             (formatMessagesForApi agentName systemPrompt messages thoughts) = Completed c"
    and "c = None \<or> c = Some []"
  shows "fst (llm_generateAgentResponse b agentName systemPrompt messages thoughts (now, this))
           = \<lparr>publicResponse = [], privateThoughts = []\<rparr>
     \<and> requestCount (snd (snd (llm_generateAgentResponse b agentName systemPrompt messages
           thoughts (now, this))))
         = requestCount (snd (checkRateLimit b (now, this))) + 1"
proof -
  obtain issued this1 where c: "checkRateLimit b (now, this) = (issued, this1)"
    by (cases "checkRateLimit b (now, this)")
  then have "dispatchLog this1 = dispatchLog this"
    using checkRateLimit_log [of b now this] by simp
  with assms c show ?thesis
    by (auto simp: llm_generateAgentResponse_def Let_def parseAgentResponse_empty)
qed

lemmas adapter_eval = llm_generateAgentResponse_def llm_generateAgentResponseMulti_def
  checkRateLimit_def Let_def fallbackResponse_def answeringBackend_def failingBackend_def
  silentBackend_def

theorem C5_empty_completion_witness:
  "llm_generateAgentResponse silentBackend (js ''User A'') (js ''p'') [] []
      (2000, \<lparr>requestCount = 0, lastResetTime = 1000, dispatchLog = []\<rparr>)
    = (\<lparr>publicResponse = [], privateThoughts = []\<rparr>, 2005,
       \<lparr>requestCount = 1, lastResetTime = 1000, dispatchLog = [(2000, 1000, True)]\<rparr>)"
proof -
  have d: "dispatch silentBackend
      (length (dispatchLog \<lparr>requestCount = 0, lastResetTime = 1000, dispatchLog = []\<rparr>))
      (formatMessagesForApi (js ''User A'') (js ''p'') [] []) = Completed None"
    by (simp add: silentBackend_def)
  have "snd (llm_generateAgentResponse silentBackend (js ''User A'') (js ''p'') [] []
      (2000, \<lparr>requestCount = 0, lastResetTime = 1000, dispatchLog = []\<rparr>))
    = (2005, \<lparr>requestCount = 1, lastResetTime = 1000, dispatchLog = [(2000, 1000, True)]\<rparr>)"
    by (simp add: adapter_eval)
  with C5_empty_completion [OF d, of 2000] show ?thesis
    by (simp add: prod_eq_iff)
qed

text \<open>
  C5 as stated fails: with an absent content the public text is empty, not the notice
  that names the agent.
\<close>

theorem C5_no_fallback_counterexample:
  "dispatch silentBackend 0 (formatMessagesForApi (js ''User A'') (js ''p'') [] [])
     = Completed None
   \<and> publicResponse (fst (llm_generateAgentResponse silentBackend (js ''User A'') (js ''p'') [] []
        (2000, \<lparr>requestCount = 0, lastResetTime = 1000, dispatchLog = []\<rparr>))) = []
   \<and> publicResponse (fst (llm_generateAgentResponse silentBackend (js ''User A'') (js ''p'') [] []
        (2000, \<lparr>requestCount = 0, lastResetTime = 1000, dispatchLog = []\<rparr>)))
       \<noteq> js ''User A is unable to respond at the moment.''"
  by (simp add: adapter_eval parseAgentResponse_empty) (simp add: js_def)

section \<open>Text in the store\<close>

lemma toWellFormed_plain: "\<forall>c\<in>set s. c < 55296 \<Longrightarrow> toWellFormed s = s"
  by (induction s rule: toWellFormed.induct)
    (auto simp: isHighSurrogate_def isLowSurrogate_def)

lemma toWellFormed_Cons:
  "\<not> isHighSurrogate c \<Longrightarrow> \<not> isLowSurrogate c \<Longrightarrow> toWellFormed (c # s) = c # toWellFormed s"
  by (cases s) simp_all

lemma of_char_less: "(of_char x :: nat) < 256"
proof -
  have "(of_char x :: nat) mod 256 < 256" by (rule mod_less_divisor) simp
  then show ?thesis by (simp only: of_char_mod_256)
qed

lemma toWellFormed_js: "toWellFormed (js s) = js s"
proof (rule toWellFormed_plain, rule ballI)
  fix c assume "c \<in> set (js s)"
  then obtain x where c: "c = of_char x" by (auto simp: js_def)
  have "(of_char x :: nat) < 55296" by (rule less_trans [OF of_char_less]) simp
  with c show "c < 55296" by (simp only:)
qed

lemma toWellFormed_idem: "toWellFormed (toWellFormed s) = toWellFormed s"
proof (induction s rule: toWellFormed.induct)
  case 1
  show ?case by simp
next
  case (2 c)
  show ?case by (simp add: isHighSurrogate_def isLowSurrogate_def)
next
  case (3 c d rest)
  have r: "\<not> isHighSurrogate 65533" "\<not> isLowSurrogate 65533"
    by (simp_all add: isHighSurrogate_def isLowSurrogate_def)
  consider (pair) "isHighSurrogate c \<and> isLowSurrogate d"
    | (lone) "\<not> (isHighSurrogate c \<and> isLowSurrogate d)" "isHighSurrogate c \<or> isLowSurrogate c"
    | (plain) "\<not> isHighSurrogate c" "\<not> isLowSurrogate c"
    by blast
  then show ?case
  proof cases
    case pair
    with 3 show ?thesis by simp
  next
    case lone
    then have e: "toWellFormed (c # d # rest) = 65533 # toWellFormed (d # rest)" by auto
    from lone 3 have "toWellFormed (toWellFormed (d # rest)) = toWellFormed (d # rest)" by simp
    then show ?thesis unfolding e by (simp only: toWellFormed_Cons [OF r])
  next
    case plain
    then have e: "toWellFormed (c # d # rest) = c # toWellFormed (d # rest)" by auto
    from plain 3 have "toWellFormed (toWellFormed (d # rest)) = toWellFormed (d # rest)" by simp
    then show ?thesis unfolding e by (simp only: toWellFormed_Cons [OF plain])
  qed
qed

lemma toWellFormed_append:
  "wellFormed a \<Longrightarrow> toWellFormed (a @ b) = a @ toWellFormed b"
proof (induction a rule: toWellFormed.induct)
  case 1
  then show ?case by simp
next
  case (2 c)
  then show ?case
    by (cases b) (auto simp: wellFormed_def isHighSurrogate_def isLowSurrogate_def split: if_splits)
next
  case (3 c d rest)
  then show ?case
    by (auto simp: wellFormed_def isHighSurrogate_def isLowSurrogate_def split: if_splits)
qed

lemma wellFormed_append: "wellFormed a \<Longrightarrow> wellFormed b \<Longrightarrow> wellFormed (a @ b)"
  using toWellFormed_append [of a b] by (simp add: wellFormed_def)

lemma wellFormed_js: "wellFormed (js s)"
  by (simp add: wellFormed_def toWellFormed_js)

section \<open>Agent names\<close>

lemma createAgents_names:
  "createAgents uuidv4 cid idxs agents w = (Inr agents', w') \<Longrightarrow>
     map a_name agents' = map a_name agents @ map (\<lambda>i. js ''User '' @ fromCharCode (65 + i)) idxs"
proof (induction idxs arbitrary: agents w)
  case Nil
  then show ?case by simp
next
  case (Cons i rest)
  then show ?case
    by (auto simp: Let_def split: sum.splits)
qed

lemma createConversation_names:
  assumes "createConversation uuidv4 topic numAgents w = (Inr conversation, w')"
  shows "map a_name (c_agents conversation)
           = map (\<lambda>i. js ''User '' @ fromCharCode (65 + i)) [0..<numAgents]"
proof -
  from assms obtain d1 w2 where
    "createAgents uuidv4 (uuidv4 (w_uuids w)) [0..<numAgents] []
       (w\<lparr>w_uuids := w_uuids w + 1, w_db := d1\<rparr>) = (Inr (c_agents conversation), w2)"
    by (auto simp: createConversation_def Let_def split: sum.splits prod.splits)
  from createAgents_names [OF this] show ?thesis by simp
qed

text \<open>
  C1, as amended. \<open>createConversation\<close> produces exactly \<open>agentCount\<close> agents. Up to
  26 agents their names are pairwise distinct, and agent \<open>i\<close> is named \<open>User\<close>, a
  space, and the \<open>i\<close>-th name of the sequence A, B, ..., Z, which is what
  \<open>indexToLetters\<close> gives. \<open>indexToLetters\<close> itself maps 25 to Z, 26 to AA, 51 to AZ
  and 52 to BA.
\<close>

theorem C1_agent_names:
  assumes "createConversation uuidv4 topic agentCount w = (Inr conversation, w')"
  shows "length (c_agents conversation) = agentCount
     \<and> (agentCount \<le> 26 \<longrightarrow>
          distinct (map a_name (c_agents conversation))
          \<and> (\<forall>i<agentCount. a_name (c_agents conversation ! i) = js ''User '' @ indexToLetters i))
     \<and> indexToLetters 25 = js ''Z'' \<and> indexToLetters 26 = js ''AA''
     \<and> indexToLetters 51 = js ''AZ'' \<and> indexToLetters 52 = js ''BA''"
proof -
  let ?f = "\<lambda>i. js ''User '' @ fromCharCode (65 + i)"
  have names: "map a_name (c_agents conversation) = map ?f [0..<agentCount]"
    by (rule createConversation_names [OF assms])
  then have len: "length (c_agents conversation) = agentCount"
    using length_map [of a_name "c_agents conversation"] by simp
  have nth: "a_name (c_agents conversation ! i) = ?f i" if "i < agentCount" for i
  proof -
    have "map a_name (c_agents conversation) ! i = map ?f [0..<agentCount] ! i"
      using names by simp
    with that len show ?thesis by simp
  qed
  have inj: "inj_on ?f {0..<agentCount}" if "agentCount \<le> 26"
    using that by (auto simp: inj_on_def fromCharCode_def)
  have dist: "distinct (map a_name (c_agents conversation))" if "agentCount \<le> 26"
    using inj [OF that] by (simp add: names distinct_map)
  have letters: "?f i = js ''User '' @ indexToLetters i" if "i < agentCount" "agentCount \<le> 26" for i
    using that by (simp add: indexToLetters_def)
  have ex: "indexToLetters 25 = js ''Z'' \<and> indexToLetters 26 = js ''AA''
     \<and> indexToLetters 51 = js ''AZ'' \<and> indexToLetters 52 = js ''BA''"
    by (simp add: indexToLetters_def fromCharCode_def js_def)
  show ?thesis using len dist nth letters ex by simp
qed

lemmas store_eval = createConversation_def db_createConversation_def
  db_createAgent_def db_createMessage_def conversationIds_def
  agentIds_def messageIds_def demoUuid_def demoWorld_def demoDb_def demoConversation_def
  demoSeed_def Let_def fromCharCode_def baseSystemPrompt_def utf8Conversation_def
  utf8Agent_def utf8Message_def isHighSurrogate_def isLowSurrogate_def

lemma demo_create:
  "map_sum id (\<lambda>c. map a_name (c_agents c))
     (fst (createConversation demoUuid (js ''t'') 2 demoWorld))
    = Inr [js ''User A'', js ''User B'']"
  by (simp add: store_eval upt_rec js_def)

theorem C1_agent_names_witness:
  "\<exists>conversation w'.
     createConversation demoUuid (js ''t'') 2 demoWorld = (Inr conversation, w')
     \<and> length (c_agents conversation) = 2
     \<and> map a_name (c_agents conversation) = [js ''User A'', js ''User B'']"
proof -
  obtain r w' where r: "createConversation demoUuid (js ''t'') 2 demoWorld = (r, w')"
    by (cases "createConversation demoUuid (js ''t'') 2 demoWorld")
  with demo_create obtain conversation where c: "r = Inr conversation"
    and n: "map a_name (c_agents conversation) = [js ''User A'', js ''User B'']"
    by (cases r) auto
  from C1_agent_names [of demoUuid "js ''t''" 2 demoWorld conversation w'] r c
  have "length (c_agents conversation) = 2" by simp
  with r c n have "createConversation demoUuid (js ''t'') 2 demoWorld = (Inr conversation, w')
     \<and> length (c_agents conversation) = 2
     \<and> map a_name (c_agents conversation) = [js ''User A'', js ''User B'']"
    by simp
  then show ?thesis
    by (rule_tac x = conversation in exI, rule_tac x = w' in exI)
qed

text \<open>
  C1 as stated fails: the first agent is named \<open>User A\<close>, not \<open>A\<close>.
\<close>

theorem C1_user_prefix_counterexample:
  "map_sum id (\<lambda>c. map a_name (c_agents c))
     (fst (createConversation demoUuid (js ''t'') 1 demoWorld)) = Inr [js ''User A'']
   \<and> js ''User A'' \<noteq> js ''A'' \<and> js ''User A'' \<noteq> indexToLetters 0"
  by (simp add: store_eval upt_rec js_def indexToLetters_def)

section \<open>One call of the Turn Engine\<close>

text \<open>
  The result of \<open>generateAgentResponse\<close> for an existing agent when the store
  accepts both inserts: the public message and the private thought are stored and
  appended, and the call ends with the TypeError. No call returns normally, so a run of
  \<open>runConversation\<close> with an agent and a turn is its first call.
\<close>

lemma generateAgentResponse_thrown:
  assumes i: "i < length (c_agents conversation)"
    and call: "llmService (a_name (c_agents conversation ! i))
           (a_systemPrompt (c_agents conversation ! i))
           (publicMessagesOf conversation) (a_privateThoughts (c_agents conversation ! i))
           (w_clock w, w_llm w) = (response, returned, llm1)"
    and store: "storeAccepts uuidv4 (w_uuids w) conversation (c_agents conversation ! i) (w_db w)"
  shows "generateAgentResponse llmService uuidv4 conversation (int i) w =
     (Some TypeError,
      conversation
        \<lparr>c_messages := c_messages conversation @
           [turnMessage conversation (c_agents conversation ! i) (uuidv4 (w_uuids w))
              (publicResponse response) False returned],
         c_agents := (c_agents conversation)
           [i := (c_agents conversation ! i)
              \<lparr>a_privateThoughts := a_privateThoughts (c_agents conversation ! i) @
                 [turnMessage conversation (c_agents conversation ! i)
                    (uuidv4 (Suc (w_uuids w))) (privateThoughts response) True returned]\<rparr>],
         c_updatedAt := returned\<rparr>,
      w\<lparr>w_clock := returned, w_llm := llm1, w_uuids := w_uuids w + 2,
        w_db := (w_db w)\<lparr>tbl_messages := tbl_messages (w_db w) @
          [utf8Message (turnRow conversation (c_agents conversation ! i) (uuidv4 (w_uuids w))
             (publicResponse response) False returned),
           utf8Message (turnRow conversation (c_agents conversation ! i)
             (uuidv4 (Suc (w_uuids w))) (privateThoughts response) True returned)]\<rparr>\<rparr>)"
  using assms
  by (auto simp: generateAgentResponse_def Let_def turnMessage_def turnRow_def
      db_createMessage_def storeAccepts_def utf8Message_def messageIds_def
      conversationIds_def agentIds_def)

lemma generateAgentResponse_outcome:
  assumes g: "generateAgentResponse llmService uuidv4 conversation idx w = (r, c', w')"
  shows "r \<noteq> None"
    and "c' = conversation \<or>
         (\<exists>i pub priv. idx = int i \<and> i < length (c_agents conversation) \<and> r = Some TypeError
            \<and> \<not> m_isPrivate pub \<and> m_isPrivate priv
            \<and> m_agentId priv = Some (a_id (c_agents conversation ! i))
            \<and> c' = conversation
                 \<lparr>c_messages := c_messages conversation @ [pub],
                  c_agents := (c_agents conversation)
                    [i := (c_agents conversation ! i)
                       \<lparr>a_privateThoughts :=
                          a_privateThoughts (c_agents conversation ! i) @ [priv]\<rparr>],
                  c_updatedAt := w_clock w'\<rparr>)"
    and "length (tbl_messages (w_db w')) \<le> length (tbl_messages (w_db w)) + 2"
proof -
  show "r \<noteq> None"
    using g by (auto simp: generateAgentResponse_def Let_def split: if_splits sum.splits prod.splits)
  show "length (tbl_messages (w_db w')) \<le> length (tbl_messages (w_db w)) + 2"
    using g by (auto simp: generateAgentResponse_def Let_def db_createMessage_def
        split: if_splits sum.splits prod.splits)
  show "c' = conversation \<or>
         (\<exists>i pub priv. idx = int i \<and> i < length (c_agents conversation) \<and> r = Some TypeError
            \<and> \<not> m_isPrivate pub \<and> m_isPrivate priv
            \<and> m_agentId priv = Some (a_id (c_agents conversation ! i))
            \<and> c' = conversation
                 \<lparr>c_messages := c_messages conversation @ [pub],
                  c_agents := (c_agents conversation)
                    [i := (c_agents conversation ! i)
                       \<lparr>a_privateThoughts :=
                          a_privateThoughts (c_agents conversation ! i) @ [priv]\<rparr>],
                  c_updatedAt := w_clock w'\<rparr>)"
  proof (cases "c' = conversation")
    case True
    then show ?thesis by simp
  next
    case False
    have range: "0 \<le> idx \<and> idx < int (length (c_agents conversation))"
      using g False by (auto simp: generateAgentResponse_def split: if_splits)
    then obtain i where i: "idx = int i" "i < length (c_agents conversation)"
      by (metis nonneg_int_cases of_nat_less_iff)
    obtain response returned llm1 where call:
      "llmService (a_name (c_agents conversation ! i)) (a_systemPrompt (c_agents conversation ! i))
         (publicMessagesOf conversation) (a_privateThoughts (c_agents conversation ! i))
         (w_clock w, w_llm w) = (response, returned, llm1)"
      by (metis prod_cases3)
    let ?pub = "turnMessage conversation (c_agents conversation ! i) (uuidv4 (w_uuids w))
              (publicResponse response) False returned"
    let ?priv = "turnMessage conversation (c_agents conversation ! i)
                    (uuidv4 (Suc (w_uuids w))) (privateThoughts response) True returned"
    from g False i call have "r = Some TypeError \<and> w_clock w' = returned
        \<and> c' = conversation
                 \<lparr>c_messages := c_messages conversation @ [?pub],
                  c_agents := (c_agents conversation)
                    [i := (c_agents conversation ! i)
                       \<lparr>a_privateThoughts :=
                          a_privateThoughts (c_agents conversation ! i) @ [?priv]\<rparr>],
                  c_updatedAt := returned\<rparr>"
      by (auto simp: generateAgentResponse_def Let_def turnMessage_def
          split: if_splits sum.splits)
    then have "idx = int i \<and> i < length (c_agents conversation) \<and> r = Some TypeError
            \<and> \<not> m_isPrivate ?pub \<and> m_isPrivate ?priv
            \<and> m_agentId ?priv = Some (a_id (c_agents conversation ! i))
            \<and> c' = conversation
                 \<lparr>c_messages := c_messages conversation @ [?pub],
                  c_agents := (c_agents conversation)
                    [i := (c_agents conversation ! i)
                       \<lparr>a_privateThoughts :=
                          a_privateThoughts (c_agents conversation ! i) @ [?priv]\<rparr>],
                  c_updatedAt := w_clock w'\<rparr>"
      using i by (simp add: turnMessage_def)
    then show ?thesis by blast
  qed
qed

lemma agentLoop_first:
  "agentLoop llmService uuidv4 (i # rest) c w = generateAgentResponse llmService uuidv4 c (int i) w"
proof -
  obtain r c' w' where g: "generateAgentResponse llmService uuidv4 c (int i) w = (r, c', w')"
    by (metis prod_cases3)
  from generateAgentResponse_outcome(1) [OF g] obtain e where "r = Some e" by auto
  with g show ?thesis by simp
qed

lemma turnLoop_first:
  assumes "0 < n"
  shows "turnLoop llmService uuidv4 n (Suc t) c w = generateAgentResponse llmService uuidv4 c 0 w"
proof -
  from assms have u: "[0..<n] = 0 # [1..<n]" by (simp add: upt_rec)
  obtain r c' w' where g: "generateAgentResponse llmService uuidv4 c 0 w = (r, c', w')"
    by (metis prod_cases3)
  from generateAgentResponse_outcome(1) [OF g] obtain e where "r = Some e" by auto
  with g show ?thesis
    using agentLoop_first [of llmService uuidv4 0 "[1..<n]" c w] by (simp add: u)
qed

lemma runConversation_first:
  assumes "c_agents c \<noteq> []" and "c_messages c \<noteq> []" and "0 < t"
  shows "runConversation llmService uuidv4 c t w = generateAgentResponse llmService uuidv4 c 0 w"
proof -
  from assms(3) obtain t' where "t = Suc t'" by (cases t) auto
  with assms(1,2) turnLoop_first [of "length (c_agents c)" llmService uuidv4 t' c w]
  show ?thesis by (simp add: runConversation_def)
qed

lemma demo_accepts:
  assumes "i < 2"
  shows "storeAccepts demoUuid (w_uuids demoWorld) demoConversation
           (c_agents demoConversation ! i) (w_db demoWorld)"
proof -
  from assms consider "i = 0" | "i = 1" by linarith
  then show ?thesis
    by cases (simp_all add: storeAccepts_def store_eval js_def)
qed

section \<open>The turn loop\<close>

text \<open>
  C3. \<open>runConversation\<close> with at least one agent and at least one turn does not
  append \<open>t * n\<close> public and \<open>t * n\<close> private messages: the first call of
  \<open>generateAgentResponse\<close>, for the agent of index 0 in turn 0, throws, and the run
  ends with that error. The run is that one call; it adds at most one public message and
  at most two rows. When the store accepts the two inserts of that call, the run adds
  exactly one public message, by the first agent, one private thought of that agent and
  their two rows, and ends with the TypeError of calling \<open>updateConversation\<close>,
  which \<open>DatabaseService\<close> does not define.
\<close>

theorem C3_run_conversation_stops:
  assumes agents: "c_agents conversation \<noteq> []"
    and seed: "c_messages conversation \<noteq> []"
    and turns: "0 < t"
  shows "runConversation llmService uuidv4 conversation t w
           = generateAgentResponse llmService uuidv4 conversation 0 w
     \<and> (\<exists>e c' w'. runConversation llmService uuidv4 conversation t w = (Some e, c', w')
          \<and> length (c_messages c') \<le> length (c_messages conversation) + 1
          \<and> length (tbl_messages (w_db w')) \<le> length (tbl_messages (w_db w)) + 2)
     \<and> (storeAccepts uuidv4 (w_uuids w) conversation (c_agents conversation ! 0) (w_db w) \<longrightarrow>
         (\<exists>c' w' pub priv rowPub rowPriv.
            runConversation llmService uuidv4 conversation t w = (Some TypeError, c', w')
            \<and> c_messages c' = c_messages conversation @ [pub]
            \<and> \<not> m_isPrivate pub \<and> m_agentId pub = Some (a_id (c_agents conversation ! 0))
            \<and> c_agents c' = (c_agents conversation)
                 [0 := (c_agents conversation ! 0)
                    \<lparr>a_privateThoughts :=
                       a_privateThoughts (c_agents conversation ! 0) @ [priv]\<rparr>]
            \<and> m_isPrivate priv \<and> m_agentId priv = Some (a_id (c_agents conversation ! 0))
            \<and> tbl_messages (w_db w') = tbl_messages (w_db w) @ [rowPub, rowPriv]
            \<and> \<not> dbm_is_private rowPub \<and> dbm_is_private rowPriv))"
proof -
  have first: "runConversation llmService uuidv4 conversation t w
           = generateAgentResponse llmService uuidv4 conversation 0 w"
    by (rule runConversation_first [OF agents seed turns])
  obtain r c' w' where g:
    "generateAgentResponse llmService uuidv4 conversation 0 w = (r, c', w')"
    by (metis prod_cases3)
  note o = generateAgentResponse_outcome [OF g]
  from o(1) obtain e where e: "r = Some e" by auto
  from o(2) have len: "length (c_messages c') \<le> length (c_messages conversation) + 1"
    by auto
  have bound: "\<exists>e c' w'. runConversation llmService uuidv4 conversation t w = (Some e, c', w')
          \<and> length (c_messages c') \<le> length (c_messages conversation) + 1
          \<and> length (tbl_messages (w_db w')) \<le> length (tbl_messages (w_db w)) + 2"
    using first g e len o(3) by simp
  have thrown: "\<exists>c' w' pub priv rowPub rowPriv.
            runConversation llmService uuidv4 conversation t w = (Some TypeError, c', w')
            \<and> c_messages c' = c_messages conversation @ [pub]
            \<and> \<not> m_isPrivate pub \<and> m_agentId pub = Some (a_id (c_agents conversation ! 0))
            \<and> c_agents c' = (c_agents conversation)
                 [0 := (c_agents conversation ! 0)
                    \<lparr>a_privateThoughts :=
                       a_privateThoughts (c_agents conversation ! 0) @ [priv]\<rparr>]
            \<and> m_isPrivate priv \<and> m_agentId priv = Some (a_id (c_agents conversation ! 0))
            \<and> tbl_messages (w_db w') = tbl_messages (w_db w) @ [rowPub, rowPriv]
            \<and> \<not> dbm_is_private rowPub \<and> dbm_is_private rowPriv"
    if store: "storeAccepts uuidv4 (w_uuids w) conversation (c_agents conversation ! 0) (w_db w)"
  proof -
    from agents have i: "0 < length (c_agents conversation)" by simp
    obtain response returned llm1 where call:
      "llmService (a_name (c_agents conversation ! 0)) (a_systemPrompt (c_agents conversation ! 0))
         (publicMessagesOf conversation) (a_privateThoughts (c_agents conversation ! 0))
         (w_clock w, w_llm w) = (response, returned, llm1)"
      by (metis prod_cases3)
    note th = generateAgentResponse_thrown [where llmService = llmService and i = 0
        and conversation = conversation and w = w and ?uuidv4.0 = uuidv4, OF i call store]
    show ?thesis
      apply (rule exI, rule exI)
      apply (rule exI [of _ "turnMessage conversation (c_agents conversation ! 0)
          (uuidv4 (w_uuids w)) (publicResponse response) False returned"])
      apply (rule exI [of _ "turnMessage conversation (c_agents conversation ! 0)
          (uuidv4 (Suc (w_uuids w))) (privateThoughts response) True returned"])
      apply (rule exI [of _ "utf8Message (turnRow conversation (c_agents conversation ! 0)
          (uuidv4 (w_uuids w)) (publicResponse response) False returned)"])
      apply (rule exI [of _ "utf8Message (turnRow conversation (c_agents conversation ! 0)
          (uuidv4 (Suc (w_uuids w))) (privateThoughts response) True returned)"])
      apply (rule conjI)
       apply (simp only: first)
       apply (rule th [simplified])
      apply (simp add: turnMessage_def turnRow_def utf8Message_def)
      done
  qed
  from first bound thrown show ?thesis by blast
qed

theorem C3_run_conversation_stops_witness:
  "\<exists>c' w'. runConversation (llm_generateAgentResponse answeringBackend) demoUuid
       demoConversation 2 demoWorld = (Some TypeError, c', w')
     \<and> length (c_agents demoConversation) = 2
     \<and> length (c_messages c') = length (c_messages demoConversation) + 1
     \<and> map (length \<circ> a_privateThoughts) (c_agents c') = [1, 0]
     \<and> length (tbl_messages (w_db w')) = length (tbl_messages (w_db demoWorld)) + 2"
proof -
  have ne: "c_agents demoConversation \<noteq> []" "c_messages demoConversation \<noteq> []"
    by (simp_all add: demoConversation_def)
  have acc: "storeAccepts demoUuid (w_uuids demoWorld) demoConversation
      (c_agents demoConversation ! 0) (w_db demoWorld)"
    by (rule demo_accepts) simp
  from C3_run_conversation_stops [OF ne, of 2 "llm_generateAgentResponse answeringBackend"
      demoUuid demoWorld, THEN conjunct2, THEN conjunct2, rule_format, OF _ acc]
  obtain c' w' pub priv rowPub rowPriv where
    r: "runConversation (llm_generateAgentResponse answeringBackend) demoUuid
       demoConversation 2 demoWorld = (Some TypeError, c', w')"
    and m: "c_messages c' = c_messages demoConversation @ [pub]"
    and a: "c_agents c' = (c_agents demoConversation)
                 [0 := (c_agents demoConversation ! 0)
                    \<lparr>a_privateThoughts :=
                       a_privateThoughts (c_agents demoConversation ! 0) @ [priv]\<rparr>]"
    and rows: "tbl_messages (w_db w') = tbl_messages (w_db demoWorld) @ [rowPub, rowPriv]"
    by auto
  have "length (c_agents demoConversation) = 2
     \<and> length (c_messages c') = length (c_messages demoConversation) + 1
     \<and> map (length \<circ> a_privateThoughts) (c_agents c') = [1, 0]
     \<and> length (tbl_messages (w_db w')) = length (tbl_messages (w_db demoWorld)) + 2"
    by (simp add: m a rows demoConversation_def)
  with r show ?thesis by - (rule exI, rule exI, rule conjI, assumption+)
qed

section \<open>Backend failures\<close>

lemma adapter_rejected:
  assumes "dispatch b (length (dispatchLog this)) (formatMessagesForApi n p h t) = Rejected e"
  shows "fst (llm_generateAgentResponse b n p h t (now, this)) = fallbackResponse n e"
    and "modelProvider b = OpenAI \<or> modelProvider b = Groq \<Longrightarrow>
         fst (llm_generateAgentResponseMulti b n p h t (now, this)) = fallbackResponse n e"
proof -
  obtain issued this1 where c: "checkRateLimit b (now, this) = (issued, this1)"
    by (cases "checkRateLimit b (now, this)")
  then have l: "dispatchLog this1 = dispatchLog this"
    using checkRateLimit_log [of b now this] by simp
  show "fst (llm_generateAgentResponse b n p h t (now, this)) = fallbackResponse n e"
    using assms c l by (simp add: llm_generateAgentResponse_def Let_def)
  show "fst (llm_generateAgentResponseMulti b n p h t (now, this)) = fallbackResponse n e"
    if "modelProvider b = OpenAI \<or> modelProvider b = Groq"
    using that assms c l by (auto simp: llm_generateAgentResponseMulti_def Let_def)
qed

text \<open>
  C4. When the dispatch of either version of the adapter throws or rejects with the
  description \<open>e\<close>, the adapter does not raise: it returns the notice that names the
  agent as public text and the error description as private text. The Turn Engine's
  \<open>generateAgentResponse\<close> does not complete, though: no call of it returns, and
  when the store accepts its two inserts it appends that public message to the
  conversation and the private thought to the agent and then ends with the TypeError of
  calling \<open>updateConversation\<close>, which \<open>DatabaseService\<close> does not define.
\<close>

theorem C4_backend_failure_turn_throws:
  assumes i: "i < length (c_agents conversation)"
    and agent: "agent = c_agents conversation ! i"
    and rejected: "dispatch b (length (dispatchLog (w_llm w)))
        (formatMessagesForApi (a_name agent) (a_systemPrompt agent)
           (publicMessagesOf conversation) (a_privateThoughts agent)) = Rejected e"
    and adapter: "llmService = llm_generateAgentResponse b
        \<or> llmService = llm_generateAgentResponseMulti b
           \<and> (modelProvider b = OpenAI \<or> modelProvider b = Groq)"
  shows "fst (llmService (a_name agent) (a_systemPrompt agent) (publicMessagesOf conversation)
             (a_privateThoughts agent) (w_clock w, w_llm w))
           = \<lparr>publicResponse = a_name agent @ js '' is unable to respond at the moment.'',
              privateThoughts = js ''Error generating response: '' @ e\<rparr>
     \<and> fst (generateAgentResponse llmService uuidv4 conversation (int i) w) \<noteq> None
     \<and> (storeAccepts uuidv4 (w_uuids w) conversation agent (w_db w) \<longrightarrow>
         (\<exists>c' w'. generateAgentResponse llmService uuidv4 conversation (int i) w
               = (Some TypeError, c', w')
          \<and> c_messages c' = c_messages conversation @
               [turnMessage conversation agent (uuidv4 (w_uuids w))
                  (a_name agent @ js '' is unable to respond at the moment.'') False (w_clock w')]
          \<and> a_privateThoughts (c_agents c' ! i) = a_privateThoughts agent @
               [turnMessage conversation agent (uuidv4 (Suc (w_uuids w)))
                  (js ''Error generating response: '' @ e) True (w_clock w')]
          \<and> tbl_messages (w_db w') = tbl_messages (w_db w) @
               [utf8Message (turnRow conversation agent (uuidv4 (w_uuids w))
                  (a_name agent @ js '' is unable to respond at the moment.'') False (w_clock w')),
                utf8Message (turnRow conversation agent (uuidv4 (Suc (w_uuids w)))
                  (js ''Error generating response: '' @ e) True (w_clock w'))]))"
proof -
  let ?call = "llmService (a_name agent) (a_systemPrompt agent) (publicMessagesOf conversation)
             (a_privateThoughts agent) (w_clock w, w_llm w)"
  have fb: "fst ?call = fallbackResponse (a_name agent) e"
    using adapter adapter_rejected [OF rejected, of "w_clock w"] by auto
  obtain response returned llm1 where r: "?call = (response, returned, llm1)"
    by (metis prod_cases3)
  with fb have resp: "response = fallbackResponse (a_name agent) e" by simp
  obtain r0 c0 w0 where g0:
    "generateAgentResponse llmService uuidv4 conversation (int i) w = (r0, c0, w0)"
    by (metis prod_cases3)
  from generateAgentResponse_outcome(1) [OF g0] g0
  have never: "fst (generateAgentResponse llmService uuidv4 conversation (int i) w) \<noteq> None"
    by simp
  have thrown: "\<exists>c' w'. generateAgentResponse llmService uuidv4 conversation (int i) w
               = (Some TypeError, c', w')
          \<and> c_messages c' = c_messages conversation @
               [turnMessage conversation agent (uuidv4 (w_uuids w))
                  (a_name agent @ js '' is unable to respond at the moment.'') False (w_clock w')]
          \<and> a_privateThoughts (c_agents c' ! i) = a_privateThoughts agent @
               [turnMessage conversation agent (uuidv4 (Suc (w_uuids w)))
                  (js ''Error generating response: '' @ e) True (w_clock w')]
          \<and> tbl_messages (w_db w') = tbl_messages (w_db w) @
               [utf8Message (turnRow conversation agent (uuidv4 (w_uuids w))
                  (a_name agent @ js '' is unable to respond at the moment.'') False (w_clock w')),
                utf8Message (turnRow conversation agent (uuidv4 (Suc (w_uuids w)))
                  (js ''Error generating response: '' @ e) True (w_clock w'))]"
    if store: "storeAccepts uuidv4 (w_uuids w) conversation agent (w_db w)"
  proof -
    note g = generateAgentResponse_thrown [where llmService = llmService and i = i
        and conversation = conversation and w = w and ?uuidv4.0 = uuidv4,
        OF i r [unfolded agent] store [unfolded agent]]
    show ?thesis
      by (rule exI, rule exI, rule conjI, rule g)
        (simp add: i resp agent fallbackResponse_def)
  qed
  from fb never thrown show ?thesis by (simp add: fallbackResponse_def)
qed

theorem C4_backend_failure_turn_throws_witness:
  "\<exists>c' w'. generateAgentResponse (llm_generateAgentResponse failingBackend) demoUuid
       demoConversation 1 demoWorld = (Some TypeError, c', w')
     \<and> map m_content (c_messages c')
         = [js ''Let's discuss the following topic: t'',
            js ''User B is unable to respond at the moment.'']
     \<and> map m_content (a_privateThoughts (c_agents c' ! 1))
         = [js ''Error generating response: Error: boom'']
     \<and> length (tbl_messages (w_db w')) = 3"
proof -
  have i: "1 < length (c_agents demoConversation)" by (simp add: demoConversation_def)
  have r: "dispatch failingBackend (length (dispatchLog (w_llm demoWorld)))
        (formatMessagesForApi (a_name (c_agents demoConversation ! 1))
           (a_systemPrompt (c_agents demoConversation ! 1))
           (publicMessagesOf demoConversation)
           (a_privateThoughts (c_agents demoConversation ! 1))) = Rejected (js ''Error: boom'')"
    by (simp add: failingBackend_def)
  have acc: "storeAccepts demoUuid (w_uuids demoWorld) demoConversation
      (c_agents demoConversation ! 1) (w_db demoWorld)"
    by (rule demo_accepts) simp
  from C4_backend_failure_turn_throws [OF i refl r,
      of "llm_generateAgentResponse failingBackend" demoUuid] acc
  obtain c' w' where g: "generateAgentResponse (llm_generateAgentResponse failingBackend) demoUuid
       demoConversation (int 1) demoWorld = (Some TypeError, c', w')"
    and m: "c_messages c' = c_messages demoConversation @
               [turnMessage demoConversation (c_agents demoConversation ! 1)
                  (demoUuid (w_uuids demoWorld))
                  (a_name (c_agents demoConversation ! 1) @ js '' is unable to respond at the moment.'')
                  False (w_clock w')]"
    and t: "a_privateThoughts (c_agents c' ! 1) = a_privateThoughts (c_agents demoConversation ! 1) @
               [turnMessage demoConversation (c_agents demoConversation ! 1)
                  (demoUuid (Suc (w_uuids demoWorld)))
                  (js ''Error generating response: '' @ js ''Error: boom'') True (w_clock w')]"
    and rows: "length (tbl_messages (w_db w')) = length (tbl_messages (w_db demoWorld)) + 2"
    by auto
  have A: "map m_content (c_messages c')
         = [js ''Let's discuss the following topic: t'',
            js ''User B is unable to respond at the moment.'']"
    by (simp add: m demoConversation_def demoSeed_def turnMessage_def js_def)
  have B: "map m_content (a_privateThoughts (c_agents c' ! 1))
         = [js ''Error generating response: Error: boom'']"
    by (subst t) (simp add: demoConversation_def turnMessage_def js_def)
  have C: "length (tbl_messages (w_db w')) = 3"
    using rows by (simp add: demoWorld_def demoDb_def)
  from A B C
  have "map m_content (c_messages c')
         = [js ''Let's discuss the following topic: t'',
            js ''User B is unable to respond at the moment.'']
     \<and> map m_content (a_privateThoughts (c_agents c' ! 1))
         = [js ''Error generating response: Error: boom'']
     \<and> length (tbl_messages (w_db w')) = 3" by (intro conjI)
  with g show ?thesis by auto
qed

section \<open>The rate limiter\<close>

lemma checkRateLimit_invariant:
  assumes inv: "limiterInvariant b (now, this)"
    and c: "checkRateLimit b (now, this) = (issued, this1)"
  shows "now \<le> issued" and "lastResetTime this1 \<le> issued"
    and "issued < lastResetTime this1 + 60000"
    and "lastResetTime this \<le> lastResetTime this1"
    and "dispatchLog this1 = dispatchLog this"
    and "requestCount this1
           = length (filter (\<lambda>(t, s, ok). ok \<and> s = lastResetTime this1) (dispatchLog this))"
    and "requestCount this1 < max 1 (rateLimit b)"
    and "rateLimit b \<le> requestCount this \<and> now - lastResetTime this < 60000 \<longrightarrow>
           lastResetTime this + 60000 \<le> issued \<and> lastResetTime this1 = issued
           \<and> requestCount this1 = 0"
proof -
  from inv have le: "lastResetTime this \<le> now"
    and old: "\<And>t s ok. (t, s, ok) \<in> set (dispatchLog this) \<Longrightarrow> s \<le> lastResetTime this"
    and cnt: "requestCount this
         = length (filter (\<lambda>(t, s, ok). ok \<and> s = lastResetTime this) (dispatchLog this))"
    by (auto simp: limiterInvariant_def)
  have none: "filter (\<lambda>(t, s, ok). ok \<and> s = x) (dispatchLog this) = []"
    if "lastResetTime this < x" for x
    using old that by (fastforce simp: filter_empty_conv)
  consider (A) "now - lastResetTime this \<ge> 60000"
    | (B) "now - lastResetTime this < 60000" "rateLimit b \<le> requestCount this"
    | (C) "now - lastResetTime this < 60000" "requestCount this < rateLimit b"
    by linarith
  then have "now \<le> issued \<and> lastResetTime this1 \<le> issued
    \<and> issued < lastResetTime this1 + 60000
    \<and> lastResetTime this \<le> lastResetTime this1
    \<and> dispatchLog this1 = dispatchLog this
    \<and> requestCount this1
           = length (filter (\<lambda>(t, s, ok). ok \<and> s = lastResetTime this1) (dispatchLog this))
    \<and> requestCount this1 < max 1 (rateLimit b)
    \<and> (rateLimit b \<le> requestCount this \<and> now - lastResetTime this < 60000 \<longrightarrow>
           lastResetTime this + 60000 \<le> issued \<and> lastResetTime this1 = issued
           \<and> requestCount this1 = 0)"
  proof cases
    case A
    with c have e: "issued = now" "this1 = this\<lparr>requestCount := 0, lastResetTime := now\<rparr>"
      by (auto simp: checkRateLimit_def Let_def)
    from A have "lastResetTime this < now" by simp
    from none [OF this] A le show ?thesis by (simp add: e)
  next
    case B
    let ?woken = "now + (60000 - (now - lastResetTime this))
        + int (timerLag b (length (dispatchLog this)))"
    from B c have e: "issued = ?woken"
      "this1 = this\<lparr>requestCount := 0, lastResetTime := ?woken\<rparr>"
      by (auto simp: checkRateLimit_def Let_def)
    have "lastResetTime this < ?woken" by simp
    from none [OF this] B le show ?thesis by (simp add: e)
  next
    case C
    with c have e: "issued = now" "this1 = this"
      by (auto simp: checkRateLimit_def Let_def)
    from C le cnt show ?thesis by (simp add: e)
  qed
  then show "now \<le> issued" and "lastResetTime this1 \<le> issued"
    and "issued < lastResetTime this1 + 60000"
    and "lastResetTime this \<le> lastResetTime this1"
    and "dispatchLog this1 = dispatchLog this"
    and "requestCount this1
           = length (filter (\<lambda>(t, s, ok). ok \<and> s = lastResetTime this1) (dispatchLog this))"
    and "requestCount this1 < max 1 (rateLimit b)"
    and "rateLimit b \<le> requestCount this \<and> now - lastResetTime this < 60000 \<longrightarrow>
           lastResetTime this + 60000 \<le> issued \<and> lastResetTime this1 = issued
           \<and> requestCount this1 = 0"
    by blast+
qed

lemma adapter_step:
  assumes "llm_generateAgentResponse b n p h t (now, this) = (response, returned, this')"
    and "checkRateLimit b (now, this) = (issued, this1)"
  shows "\<exists>ok. this' = this1\<lparr>dispatchLog := dispatchLog this1 @ [(issued, lastResetTime this1, ok)],
                          requestCount := requestCount this1 + (if ok then 1 else 0)\<rparr>"
    and "issued \<le> returned"
proof -
  show "issued \<le> returned"
    using assms by (auto simp: llm_generateAgentResponse_def Let_def split: dispatch_result.splits)
  show "\<exists>ok. this' = this1\<lparr>dispatchLog := dispatchLog this1 @ [(issued, lastResetTime this1, ok)],
                          requestCount := requestCount this1 + (if ok then 1 else 0)\<rparr>"
  proof (cases "dispatch b (length (dispatchLog this1)) (formatMessagesForApi n p h t)")
    case (Rejected e)
    with assms have "this' = this1\<lparr>dispatchLog := dispatchLog this1 @ [(issued, lastResetTime this1, False)],
                          requestCount := requestCount this1 + (if False then 1 else 0)\<rparr>"
      by (auto simp: llm_generateAgentResponse_def Let_def)
    then show ?thesis by (rule exI)
  next
    case (Completed c)
    with assms have "this' = this1\<lparr>dispatchLog := dispatchLog this1 @ [(issued, lastResetTime this1, True)],
                          requestCount := requestCount this1 + (if True then 1 else 0)\<rparr>"
      by (auto simp: llm_generateAgentResponse_def Let_def)
    then show ?thesis by (rule exI)
  qed
qed

text \<open>
  C6, as amended. The invariant of the limiter holds for a new instance and is kept by
  every call of the adapter and by time passing, so no window ever has more resolved
  dispatches than the threshold (or than one, for a threshold of 0). Each call issues
  one dispatch, inside the window that is current after \<open>checkRateLimit\<close>. When the
  counter has reached the threshold and the window has not elapsed, the dispatch is
  issued no earlier than the window's boundary, where the window restarts and the
  counter is reset. A dispatch that fails is not counted.
\<close>

theorem C6_rate_limit_window:
  assumes inv: "limiterInvariant b (now, this)"
    and call: "llm_generateAgentResponse b agentName systemPrompt messages thoughts (now, this)
                 = (response, returned, this')"
  shows "(\<forall>later. returned \<le> later \<longrightarrow> limiterInvariant b (later, this'))
     \<and> (\<forall>s. length (filter (\<lambda>(t, s', ok). ok \<and> s' = s) (dispatchLog this')) \<le> max 1 (rateLimit b))
     \<and> (\<exists>issued ok.
           dispatchLog this' = dispatchLog this @ [(issued, lastResetTime this', ok)]
           \<and> now \<le> issued \<and> lastResetTime this' \<le> issued
           \<and> issued < lastResetTime this' + 60000
           \<and> (rateLimit b \<le> requestCount this \<and> now - lastResetTime this < 60000 \<longrightarrow>
                 lastResetTime this + 60000 \<le> issued \<and> lastResetTime this' = issued
                 \<and> requestCount this' = (if ok then 1 else 0)))
     \<and> limiterInvariant b
          (clock0, \<lparr>requestCount = 0, lastResetTime = clock0, dispatchLog = []\<rparr>)"
proof -
  obtain issued this1 where c: "checkRateLimit b (now, this) = (issued, this1)"
    by (cases "checkRateLimit b (now, this)")
  note k = checkRateLimit_invariant [OF inv c]
  from adapter_step [OF call c] obtain ok where
    t: "this' = this1\<lparr>dispatchLog := dispatchLog this1 @ [(issued, lastResetTime this1, ok)],
                      requestCount := requestCount this1 + (if ok then 1 else 0)\<rparr>"
    and ret: "issued \<le> returned" by blast
  from inv have old: "\<And>t s ok. (t, s, ok) \<in> set (dispatchLog this) \<Longrightarrow>
        s \<le> t \<and> t < s + 60000 \<and> t \<le> now \<and> s \<le> lastResetTime this"
    and bound: "\<And>s. length (filter (\<lambda>(t, s', ok). ok \<and> s' = s) (dispatchLog this))
              \<le> max 1 (rateLimit b)"
    by (auto simp: limiterInvariant_def)
  have log: "dispatchLog this' = dispatchLog this @ [(issued, lastResetTime this', ok)]"
    and last: "lastResetTime this' = lastResetTime this1"
    and cnt: "requestCount this' = requestCount this1 + (if ok then 1 else 0)"
    by (simp_all add: t k(5))
  have bound': "length (filter (\<lambda>(t, s', ok). ok \<and> s' = s) (dispatchLog this'))
      \<le> max 1 (rateLimit b)" for s
  proof (cases "s = lastResetTime this1")
    case True
    then show ?thesis using k(6) k(7) by (simp add: log last)
  next
    case False
    then show ?thesis using bound [of s] by (simp add: log last)
  qed
  have cur: "requestCount this'
      = length (filter (\<lambda>(t, s, ok). ok \<and> s = lastResetTime this') (dispatchLog this'))"
    using k(6) by (simp add: log last cnt)
  have ent: "s \<le> t \<and> t < s + 60000 \<and> t \<le> later \<and> s \<le> lastResetTime this'"
    if "(t, s, o') \<in> set (dispatchLog this')" "returned \<le> later" for t s o' later
  proof (cases "(t, s, o') \<in> set (dispatchLog this)")
    case True
    from old [OF True] k(1) k(4) ret that(2) show ?thesis by (simp add: last)
  next
    case False
    with that(1) have "t = issued" "s = lastResetTime this1" by (simp_all add: log last)
    with k(2) k(3) ret that(2) show ?thesis by (simp add: last)
  qed
  have inv': "limiterInvariant b (later, this')" if "returned \<le> later" for later
    unfolding limiterInvariant_def
    using k(2) ret that ent [OF _ that] cur bound' by (auto simp: last)
  have wait: "\<exists>issued ok.
           dispatchLog this' = dispatchLog this @ [(issued, lastResetTime this', ok)]
           \<and> now \<le> issued \<and> lastResetTime this' \<le> issued
           \<and> issued < lastResetTime this' + 60000
           \<and> (rateLimit b \<le> requestCount this \<and> now - lastResetTime this < 60000 \<longrightarrow>
                 lastResetTime this + 60000 \<le> issued \<and> lastResetTime this' = issued
                 \<and> requestCount this' = (if ok then 1 else 0))"
    apply (rule exI [of _ issued])
    apply (rule exI [of _ ok])
    using k(1) k(2) k(3) k(8) by (simp add: log last cnt)
  have fresh: "limiterInvariant b
          (clock0, \<lparr>requestCount = 0, lastResetTime = clock0, dispatchLog = []\<rparr>)"
    by (simp add: limiterInvariant_def)
  from inv' bound' wait fresh show ?thesis by blast
qed

theorem C6_rate_limit_window_witness:
  "limiterInvariant answeringBackend
     (1010, \<lparr>requestCount = 2, lastResetTime = 1000,
             dispatchLog = [(1000, 1000, True), (1005, 1000, True)]\<rparr>)
   \<and> rateLimit answeringBackend = 2
   \<and> snd (llm_generateAgentResponse answeringBackend (js ''User A'') (js ''p'') [] []
       (1010, \<lparr>requestCount = 2, lastResetTime = 1000,
               dispatchLog = [(1000, 1000, True), (1005, 1000, True)]\<rparr>))
     = (61005, \<lparr>requestCount = 1, lastResetTime = 61000,
                dispatchLog = [(1000, 1000, True), (1005, 1000, True), (61000, 61000, True)]\<rparr>)
   \<and> limiterInvariant answeringBackend
     (61005, \<lparr>requestCount = 1, lastResetTime = 61000,
                dispatchLog = [(1000, 1000, True), (1005, 1000, True), (61000, 61000, True)]\<rparr>)"
proof -
  let ?st = "\<lparr>requestCount = 2, lastResetTime = 1000,
             dispatchLog = [(1000, 1000, True), (1005, 1000, True)]\<rparr>"
  let ?st' = "\<lparr>requestCount = 1, lastResetTime = 61000,
                dispatchLog = [(1000, 1000, True), (1005, 1000, True), (61000, 61000, True)]\<rparr>"
  have i: "limiterInvariant answeringBackend (1010, ?st)"
    by (simp add: limiterInvariant_def answeringBackend_def)
  have r: "rateLimit answeringBackend = 2" by (simp add: answeringBackend_def)
  have s: "snd (llm_generateAgentResponse answeringBackend (js ''User A'') (js ''p'') [] []
       (1010, ?st)) = (61005, ?st')"
    by (simp add: adapter_eval)
  then obtain response where
    c: "llm_generateAgentResponse answeringBackend (js ''User A'') (js ''p'') [] [] (1010, ?st)
         = (response, 61005, ?st')"
    by (cases "llm_generateAgentResponse answeringBackend (js ''User A'') (js ''p'') [] []
       (1010, ?st)") simp
  from C6_rate_limit_window [OF i c] have "limiterInvariant answeringBackend (61005, ?st')"
    by simp
  with i r s show ?thesis by simp
qed

text \<open>
  C6 as stated fails: with the threshold 1 and a backend that rejects, two dispatches
  are issued 5 milliseconds apart in the same window.
\<close>

theorem C6_failed_dispatches_counterexample:
  "dispatchLog (snd twoFailedCalls) = [(1000, 1000, False), (1005, 1000, False)]
   \<and> rateLimit failingBackend = 1
   \<and> \<not> length (filter (\<lambda>(t, s, ok). 1000 \<le> t \<and> t < 61000) (dispatchLog (snd twoFailedCalls)))
         \<le> rateLimit failingBackend"
  by (simp add: twoFailedCalls_def adapter_eval)

section \<open>Round trip through the store\<close>

lemma wellFormed_prompt: "wellFormed baseSystemPrompt"
  by (simp add: baseSystemPrompt_def wellFormed_append wellFormed_js)

lemma wellFormed_name: "i < 55231 \<Longrightarrow> wellFormed (js ''User '' @ fromCharCode (65 + i))"
  by (rule wellFormed_append [OF wellFormed_js])
    (simp add: wellFormed_def fromCharCode_def isHighSurrogate_def isLowSurrogate_def)

lemma utf8Conversation_same:
  "wellFormed (dbc_id r) \<Longrightarrow> wellFormed (dbc_topic r) \<Longrightarrow> utf8Conversation r = r"
  by (simp add: utf8Conversation_def wellFormed_def)

lemma utf8Agent_same:
  "wellFormed (a_id a) \<Longrightarrow> wellFormed cid \<Longrightarrow> wellFormed (a_name a) \<Longrightarrow>
   wellFormed (a_systemPrompt a) \<Longrightarrow> utf8Agent (agentRow cid a) = agentRow cid a"
  by (simp add: utf8Agent_def agentRow_def wellFormed_def)

lemma utf8Message_same:
  "wellFormed (dbm_id r) \<Longrightarrow> wellFormed (dbm_conversation_id r) \<Longrightarrow> dbm_agent_id r = None \<Longrightarrow>
   dbm_agent_name r = None \<Longrightarrow> wellFormed (dbm_content r) \<Longrightarrow> utf8Message r = r"
  by (simp add: utf8Message_def wellFormed_def)

lemma createAgents_ok:
  "inj_on uuidv4 {w_uuids w..<w_uuids w + length idxs} \<Longrightarrow>
   \<forall>j<length idxs. uuidv4 (w_uuids w + j) \<notin> agentIds (w_db w) \<Longrightarrow>
   foreign_keys (w_db w) \<longrightarrow> cid \<in> conversationIds (w_db w) \<Longrightarrow>
   wellFormed cid \<Longrightarrow>
   \<forall>j<length idxs. wellFormed (uuidv4 (w_uuids w + j)) \<Longrightarrow>
   \<forall>i\<in>set idxs. i < 55231 \<Longrightarrow>
   \<exists>new w'. createAgents uuidv4 cid idxs agents w = (Inr (agents @ new), w')
     \<and> length new = length idxs
     \<and> (\<forall>a\<in>set new. a_privateThoughts a = []
           \<and> utf8Agent (agentRow cid a) = agentRow cid a
           \<and> a_id a \<in> uuidv4 ` {w_uuids w..<w_uuids w + length idxs})
     \<and> w_db w' = (w_db w)\<lparr>tbl_agents := tbl_agents (w_db w) @ map (agentRow cid) new\<rparr>
     \<and> w_uuids w' = w_uuids w + length idxs
     \<and> w_clock w' = w_clock w \<and> w_llm w' = w_llm w"
proof (induction idxs arbitrary: agents w)
  case Nil
  have "createAgents uuidv4 cid [] agents w = (Inr (agents @ []), w)
     \<and> length ([]::Agent list) = length ([]::nat list)
     \<and> (\<forall>a\<in>set ([]::Agent list). a_privateThoughts a = []
           \<and> utf8Agent (agentRow cid a) = agentRow cid a
           \<and> a_id a \<in> uuidv4 ` {w_uuids w..<w_uuids w + length ([]::nat list)})
     \<and> w_db w = (w_db w)\<lparr>tbl_agents := tbl_agents (w_db w) @ map (agentRow cid) []\<rparr>
     \<and> w_uuids w = w_uuids w + length ([]::nat list)
     \<and> w_clock w = w_clock w \<and> w_llm w = w_llm w"
    by simp
  then show ?case by blast
next
  case (Cons i rest)
  let ?k = "w_uuids w"
  let ?a = "\<lparr>a_id = uuidv4 ?k, a_name = js ''User '' @ fromCharCode (65 + i),
             a_systemPrompt = baseSystemPrompt, a_privateThoughts = []\<rparr>"
  let ?d = "(w_db w)\<lparr>tbl_agents := tbl_agents (w_db w) @ [agentRow cid ?a]\<rparr>"
  let ?w1 = "w\<lparr>w_uuids := ?k + 1, w_db := ?d\<rparr>"
  from Cons.prems(2) have f0: "uuidv4 ?k \<notin> agentIds (w_db w)" by fastforce
  from Cons.prems(5) have wf0: "wellFormed (uuidv4 ?k)" by fastforce
  from Cons.prems(6) have wfn: "wellFormed (js ''User '' @ fromCharCode (65 + i))"
    by (simp add: wellFormed_name)
  have same: "utf8Agent (agentRow cid ?a) = agentRow cid ?a"
    by (rule utf8Agent_same) (simp_all add: wf0 wfn Cons.prems(4) wellFormed_prompt)
  have ins: "db_createAgent (agentRow cid ?a) (w_db w) = Inr ?d"
    using f0 Cons.prems(3) by (simp add: db_createAgent_def same) (simp add: agentRow_def)
  have step: "createAgents uuidv4 cid (i # rest) agents w
      = createAgents uuidv4 cid rest (agents @ [?a]) ?w1"
    using ins by (simp add: Let_def agentRow_def)
  have inj': "inj_on uuidv4 {w_uuids ?w1..<w_uuids ?w1 + length rest}"
    using Cons.prems(1) by (auto simp: inj_on_def)
  have fr': "\<forall>j<length rest. uuidv4 (w_uuids ?w1 + j) \<notin> agentIds (w_db ?w1)"
  proof (intro allI impI)
    fix j assume j: "j < length rest"
    from Cons.prems(2) [rule_format, of "Suc j"] j
    have "uuidv4 (?k + Suc j) \<notin> agentIds (w_db w)" by simp
    moreover have "uuidv4 (?k + Suc j) \<noteq> uuidv4 ?k"
      using inj_onD [OF Cons.prems(1), of "?k + Suc j" ?k] j by auto
    ultimately show "uuidv4 (w_uuids ?w1 + j) \<notin> agentIds (w_db ?w1)"
      by (simp add: agentIds_def agentRow_def)
  qed
  have fk': "foreign_keys (w_db ?w1) \<longrightarrow> cid \<in> conversationIds (w_db ?w1)"
    using Cons.prems(3) by (simp add: conversationIds_def)
  have wf': "\<forall>j<length rest. wellFormed (uuidv4 (w_uuids ?w1 + j))"
  proof (intro allI impI)
    fix j assume j: "j < length rest"
    from Cons.prems(5) [rule_format, of "Suc j"] j
    show "wellFormed (uuidv4 (w_uuids ?w1 + j))" by simp
  qed
  from Cons.prems(6) have ix': "\<forall>i\<in>set rest. i < 55231" by simp
  from Cons.IH [OF inj' fr' fk' Cons.prems(4) wf' ix', of "agents @ [?a]"] obtain new w' where
    r: "createAgents uuidv4 cid rest (agents @ [?a]) ?w1 = (Inr ((agents @ [?a]) @ new), w')"
    and l: "length new = length rest"
    and p: "\<forall>a\<in>set new. a_privateThoughts a = []
           \<and> utf8Agent (agentRow cid a) = agentRow cid a
           \<and> a_id a \<in> uuidv4 ` {w_uuids ?w1..<w_uuids ?w1 + length rest}"
    and d: "w_db w' = (w_db ?w1)\<lparr>tbl_agents := tbl_agents (w_db ?w1) @ map (agentRow cid) new\<rparr>"
    and u: "w_uuids w' = w_uuids ?w1 + length rest"
    and c: "w_clock w' = w_clock ?w1" "w_llm w' = w_llm ?w1"
    by blast
  have p': "\<forall>a\<in>set (?a # new). a_privateThoughts a = []
           \<and> utf8Agent (agentRow cid a) = agentRow cid a
           \<and> a_id a \<in> uuidv4 ` {?k..<?k + length (i # rest)}"
  proof
    fix a assume "a \<in> set (?a # new)"
    then consider "a = ?a" | "a \<in> set new" by auto
    then show "a_privateThoughts a = [] \<and> utf8Agent (agentRow cid a) = agentRow cid a
      \<and> a_id a \<in> uuidv4 ` {?k..<?k + length (i # rest)}"
    proof cases
      case 1
      with same show ?thesis by simp
    next
      case 2
      with p have "a_privateThoughts a = []" and "utf8Agent (agentRow cid a) = agentRow cid a"
        and "a_id a \<in> uuidv4 ` {Suc ?k..<Suc ?k + length rest}" by simp_all
      then show ?thesis by auto
    qed
  qed
  have "createAgents uuidv4 cid (i # rest) agents w = (Inr (agents @ (?a # new)), w')
     \<and> length (?a # new) = length (i # rest)
     \<and> (\<forall>a\<in>set (?a # new). a_privateThoughts a = []
           \<and> utf8Agent (agentRow cid a) = agentRow cid a
           \<and> a_id a \<in> uuidv4 ` {?k..<?k + length (i # rest)})
     \<and> w_db w' = (w_db w)\<lparr>tbl_agents := tbl_agents (w_db w) @ map (agentRow cid) (?a # new)\<rparr>
     \<and> w_uuids w' = ?k + length (i # rest)
     \<and> w_clock w' = w_clock w \<and> w_llm w' = w_llm w"
    using step r l p' d u c by simp
  then show ?case by blast
qed

lemma find_snoc: "find P xs = None \<Longrightarrow> P x \<Longrightarrow> find P (xs @ [x]) = Some x"
  by (induction xs) (auto split: if_splits)

lemma load_after_create:
  assumes ri: "referentialIntegrity d"
    and cid: "cid \<notin> conversationIds d" and wf: "wellFormed cid"
    and new: "\<forall>a\<in>set new. a_id a \<notin> agentIds d \<and> a_privateThoughts a = []
                \<and> utf8Agent (agentRow cid a) = agentRow cid a"
    and tc: "tbl_conversations d3 = tbl_conversations d @ [crow]" "dbc_id crow = cid"
      "utf8Conversation crow = crow"
    and ta: "tbl_agents d3 = tbl_agents d @ map (agentRow cid) new"
    and tm: "tbl_messages d3 = tbl_messages d @ [seedrow]" "dbm_conversation_id seedrow = cid"
      "dbm_agent_id seedrow = None" "\<not> dbm_is_private seedrow" "utf8Message seedrow = seedrow"
  shows "db_loadConversation cid d3
    = Some \<lparr>c_id = cid, c_topic = dbc_topic crow, c_messages = [dbMessageToMessage seedrow],
            c_agents = new, c_createdAt = dbc_created_at crow,
            c_updatedAt = dbc_updated_at crow\<rparr>"
proof -
  from wf have w: "toWellFormed cid = cid" by (simp add: wellFormed_def)
  have none: "find (\<lambda>c. dbc_id c = cid) (tbl_conversations d) = None"
    using cid by (auto simp: find_None_iff conversationIds_def)
  have "find (\<lambda>c. dbc_id c = cid) (tbl_conversations d @ [crow]) = Some crow"
    using none tc(2) by (simp add: find_snoc)
  then have gc: "getConversation cid d3 = Some crow"
    by (simp add: getConversation_def tc(1) tc(3) w)
  have olda: "filter (\<lambda>a. dba_conversation_id a = cid) (tbl_agents d) = []"
    using ri cid by (auto simp: referentialIntegrity_def filter_empty_conv)
  have newa: "filter (\<lambda>a. dba_conversation_id a = cid) (map (agentRow cid) new)
      = map (agentRow cid) new"
    by (simp add: agentRow_def filter_map o_def)
  have same: "map utf8Agent (map (agentRow cid) new) = map (agentRow cid) new"
    using new by (simp add: map_idI)
  have ga: "getAgentsForConversation cid d3 = map (agentRow cid) new"
    by (simp only: getAgentsForConversation_def ta w filter_append olda newa append_Nil same)
  have oldm: "filter (\<lambda>m. dbm_conversation_id m = cid \<and> \<not> dbm_is_private m) (tbl_messages d) = []"
    using ri cid by (auto simp: referentialIntegrity_def filter_empty_conv)
  have gm: "getPublicMessagesForConversation cid d3 = [seedrow]"
    by (simp add: getPublicMessagesForConversation_def tm oldm w)
  have gp: "getPrivateMessagesForAgent (a_id a) d3 = []" if "a \<in> set new" for a
  proof -
    from that new have f: "a_id a \<notin> agentIds d"
      and "utf8Agent (agentRow cid a) = agentRow cid a" by simp_all
    then have "dba_id (utf8Agent (agentRow cid a)) = dba_id (agentRow cid a)" by simp
    then have wa: "toWellFormed (a_id a) = a_id a"
      by (simp add: utf8Agent_def agentRow_def)
    from f ri
    have "filter (\<lambda>m. dbm_agent_id m = Some (a_id a) \<and> dbm_is_private m) (tbl_messages d) = []"
      by (auto simp: referentialIntegrity_def filter_empty_conv)
    then show ?thesis
      by (simp add: getPrivateMessagesForAgent_def tm wa)
  qed
  have ag: "map ((\<lambda>dbAgent.
                 \<lparr>a_id = dba_id dbAgent, a_name = dba_name dbAgent,
                  a_systemPrompt = dba_system_prompt dbAgent,
                  a_privateThoughts =
                    map dbMessageToMessage (getPrivateMessagesForAgent (dba_id dbAgent) d3)\<rparr>)
              \<circ> agentRow cid) new = new"
  proof (rule map_idI)
    fix a assume a: "a \<in> set new"
    with new have "a_privateThoughts a = []" by simp
    with gp [OF a] show "((\<lambda>dbAgent.
                 \<lparr>a_id = dba_id dbAgent, a_name = dba_name dbAgent,
                  a_systemPrompt = dba_system_prompt dbAgent,
                  a_privateThoughts =
                    map dbMessageToMessage (getPrivateMessagesForAgent (dba_id dbAgent) d3)\<rparr>)
              \<circ> agentRow cid) a = a"
      by (simp add: agentRow_def)
  qed
  show ?thesis
    by (simp add: db_loadConversation_def gc ga gm ag tc(2))
qed

text \<open>
  C7 as stated fails: a topic with an unpaired surrogate, here the three code units
  \<open>a\<close>, \<open>0xD800\<close>, \<open>b\<close>, is created as it is and loaded with U+FFFD in the
  place of the surrogate, in the topic and in the seed message.
\<close>

theorem C7_unpaired_surrogate_counterexample:
  "(case createConversation demoUuid [97, 55296, 98] 1 demoWorld of
      (Inr conversation, w') \<Rightarrow>
        c_topic conversation = [97, 55296, 98]
        \<and> map_option c_topic (loadConversation (c_id conversation) w') = Some [97, 65533, 98]
        \<and> map_option (map m_content \<circ> c_messages) (loadConversation (c_id conversation) w')
            = Some [js ''Let's discuss the following topic: '' @ [97, 65533, 98]]
        \<and> loadConversation (c_id conversation) w' \<noteq> Some conversation
    | (Inl e, w') \<Rightarrow> False)"
  by (simp add: store_eval upt_rec js_def loadConversation_def db_loadConversation_def
      getConversation_def getPublicMessagesForConversation_def dbMessageToMessage_def)

text \<open>
  C7. When the topic and the identifiers that \<open>uuidv4\<close> hands out are well formed,
  the identifiers are new, the store's references are intact and there are at most
  55231 agents (so that every agent name is well formed), \<open>createConversation\<close>
  succeeds and \<open>loadConversation\<close> of the new conversation's id returns the very
  aggregate that \<open>createConversation\<close> returned: same topic, same agents in the same
  order with their names and prompts, and the single seed message.
\<close>

theorem C7_create_load_round_trip:
  assumes f: "freshIds uuidv4 (w_uuids w) (n + 2) (w_db w)"
    and ri: "referentialIntegrity (w_db w)"
    and ids: "wellFormedIds uuidv4 (w_uuids w) (n + 2)"
    and topic: "wellFormed topic"
    and n: "n \<le> 55231"
  shows "\<exists>conversation w'.
           createConversation uuidv4 topic n w = (Inr conversation, w')
           \<and> loadConversation (c_id conversation) w' = Some conversation
           \<and> c_topic conversation = topic
           \<and> length (c_agents conversation) = n
           \<and> map m_content (c_messages conversation)
               = [js ''Let's discuss the following topic: '' @ topic]"
proof -
  let ?k = "w_uuids w"
  let ?d = "w_db w"
  let ?cid = "uuidv4 ?k"
  let ?now = "w_clock w"
  let ?crow = "\<lparr>dbc_id = ?cid, dbc_topic = topic, dbc_created_at = ?now, dbc_updated_at = ?now\<rparr>"
  let ?d1 = "?d\<lparr>tbl_conversations := tbl_conversations ?d @ [?crow]\<rparr>"
  let ?w1 = "w\<lparr>w_uuids := ?k + 1, w_db := ?d1\<rparr>"
  from f have dist: "distinct (map uuidv4 [?k..<?k + (n + 2)])"
    and fr0: "\<forall>j<n + 2. uuidv4 (?k + j) \<notin> conversationIds ?d \<union> agentIds ?d \<union> messageIds ?d"
    by (simp_all add: freshIds_def)
  have inj: "inj_on uuidv4 {?k..<?k + (n + 2)}"
    using dist [unfolded distinct_map, THEN conjunct2] by (simp only: set_upt)
  have fr: "uuidv4 (?k + j) \<notin> conversationIds ?d \<union> agentIds ?d \<union> messageIds ?d"
    if "j < n + 2" for j
    using fr0 that by blast
  have wfid: "wellFormed (uuidv4 (?k + j))" if "j < n + 2" for j
    using ids that unfolding wellFormedIds_def by blast
  from wfid [of 0] have wfc: "wellFormed ?cid" by simp
  have samec: "utf8Conversation ?crow = ?crow"
    by (rule utf8Conversation_same) (simp_all add: wfc topic)
  from fr [of 0] have c0: "?cid \<notin> conversationIds ?d" by simp
  then have ins1: "db_createConversation ?crow ?d = Inr ?d1"
    by (simp add: db_createConversation_def samec)
  have inj1: "inj_on uuidv4 {w_uuids ?w1..<w_uuids ?w1 + length [0..<n]}"
    using inj by (auto simp: inj_on_def)
  have fr1: "\<forall>j<length [0..<n]. uuidv4 (w_uuids ?w1 + j) \<notin> agentIds (w_db ?w1)"
  proof (intro allI impI)
    fix j assume "j < length [0..<n]"
    with fr [of "j + 1"] show "uuidv4 (w_uuids ?w1 + j) \<notin> agentIds (w_db ?w1)"
      by (simp add: agentIds_def)
  qed
  have fk1: "foreign_keys (w_db ?w1) \<longrightarrow> ?cid \<in> conversationIds (w_db ?w1)"
    by (simp add: conversationIds_def)
  have wf1: "\<forall>j<length [0..<n]. wellFormed (uuidv4 (w_uuids ?w1 + j))"
  proof (intro allI impI)
    fix j assume "j < length [0..<n]"
    with wfid [of "j + 1"] show "wellFormed (uuidv4 (w_uuids ?w1 + j))" by simp
  qed
  have ix1: "\<forall>i\<in>set [0..<n]. i < 55231" using n by simp
  from createAgents_ok [OF inj1 fr1 fk1 wfc wf1 ix1, of "[]"] obtain new w2 where
    ca: "createAgents uuidv4 ?cid [0..<n] [] ?w1 = (Inr new, w2)"
    and ln: "length new = n"
    and pn: "\<forall>a\<in>set new. a_privateThoughts a = []
           \<and> utf8Agent (agentRow ?cid a) = agentRow ?cid a
           \<and> a_id a \<in> uuidv4 ` {w_uuids ?w1..<w_uuids ?w1 + length [0..<n]}"
    and d2: "w_db w2 = ?d1\<lparr>tbl_agents := tbl_agents ?d1 @ map (agentRow ?cid) new\<rparr>"
    and u2: "w_uuids w2 = ?k + 1 + n"
    and c2: "w_clock w2 = ?now"
    by auto
  let ?mid = "uuidv4 (?k + 1 + n)"
  let ?text = "js ''Let's discuss the following topic: '' @ topic"
  let ?seed = "\<lparr>m_id = ?mid, m_conversationId = ?cid, m_agentId = None, m_agentName = None,
                m_content = ?text, m_isPrivate = False, m_timestamp = ?now\<rparr>"
  let ?seedrow = "\<lparr>dbm_id = ?mid, dbm_conversation_id = ?cid, dbm_agent_id = None,
                   dbm_agent_name = None, dbm_content = ?text, dbm_is_private = False,
                   dbm_timestamp = ?now\<rparr>"
  let ?w3 = "w2\<lparr>w_uuids := w_uuids w2 + 1\<rparr>"
  let ?d3 = "(w_db w2)\<lparr>tbl_messages := tbl_messages (w_db w2) @ [?seedrow]\<rparr>"
  let ?conv = "\<lparr>c_id = ?cid, c_topic = topic, c_messages = [?seed], c_agents = new,
                c_createdAt = ?now, c_updatedAt = ?now\<rparr>"
  from fr [of "n + 1"] have m0: "?mid \<notin> messageIds ?d" by (simp add: add.assoc)
  have e: "?k + 1 + n = ?k + (n + 1)" by simp
  have wfm: "wellFormed ?mid" unfolding e by (rule wfid) simp
  have samem: "utf8Message ?seedrow = ?seedrow"
    using wfm
    by - (rule utf8Message_same,
        simp_all add: wfc wellFormed_append [OF wellFormed_js topic])
  have ins3: "db_createMessage ?seedrow (w_db ?w3) = Inr ?d3"
    using m0
    by (simp only: db_createMessage_def samem Let_def)
      (simp add: d2 messageIds_def conversationIds_def)
  have create: "createConversation uuidv4 topic n w = (Inr ?conv, ?w3\<lparr>w_db := ?d3\<rparr>)"
    using ins1 ca ins3 by (simp add: createConversation_def Let_def u2 c2)
  have newfresh: "\<forall>a\<in>set new. a_id a \<notin> agentIds ?d \<and> a_privateThoughts a = []
      \<and> utf8Agent (agentRow ?cid a) = agentRow ?cid a"
  proof
    fix a assume "a \<in> set new"
    with pn have t: "a_privateThoughts a = []"
      and u: "utf8Agent (agentRow ?cid a) = agentRow ?cid a"
      and "a_id a \<in> uuidv4 ` {?k + 1..<?k + 1 + n}" by simp_all
    then obtain x where x: "?k + 1 \<le> x" "x < ?k + 1 + n" "a_id a = uuidv4 x"
      by auto
    then have "x - ?k < n + 2" "?k + (x - ?k) = x" by simp_all
    with fr [of "x - ?k"] x(3) t u show "a_id a \<notin> agentIds ?d \<and> a_privateThoughts a = []
      \<and> utf8Agent (agentRow ?cid a) = agentRow ?cid a"
      by simp
  qed
  have load: "db_loadConversation ?cid ?d3
    = Some \<lparr>c_id = ?cid, c_topic = dbc_topic ?crow, c_messages = [dbMessageToMessage ?seedrow],
            c_agents = new, c_createdAt = dbc_created_at ?crow,
            c_updatedAt = dbc_updated_at ?crow\<rparr>"
    by (rule load_after_create [OF ri c0 wfc newfresh]) (simp_all add: d2 samec samem [simplified])
  have "loadConversation (c_id ?conv) (?w3\<lparr>w_db := ?d3\<rparr>) = Some ?conv"
    using load by (simp add: loadConversation_def dbMessageToMessage_def)
  with create ln have "createConversation uuidv4 topic n w = (Inr ?conv, ?w3\<lparr>w_db := ?d3\<rparr>)
           \<and> loadConversation (c_id ?conv) (?w3\<lparr>w_db := ?d3\<rparr>) = Some ?conv
           \<and> c_topic ?conv = topic
           \<and> length (c_agents ?conv) = n
           \<and> map m_content (c_messages ?conv) = [?text]"
    by simp
  then show ?thesis by - (rule exI, rule exI, assumption)
qed

lemma demo_fresh: "freshIds demoUuid (w_uuids demoWorld) (2 + 2) (w_db demoWorld)"
  by (simp add: freshIds_def store_eval upt_rec js_def All_less_Suc eval_nat_numeral)

lemma demo_integrity: "referentialIntegrity (w_db demoWorld)"
  by (simp add: referentialIntegrity_def store_eval js_def)

lemma demoUuid_wellFormed: "k < 1000 \<Longrightarrow> wellFormed (demoUuid k)"
  unfolding demoUuid_def
  by (rule wellFormed_append [OF wellFormed_js])
    (simp add: wellFormed_def isHighSurrogate_def isLowSurrogate_def)

lemma demo_wellFormed: "wellFormedIds demoUuid (w_uuids demoWorld) (2 + 2)"
  by (simp add: wellFormedIds_def demoUuid_wellFormed demoWorld_def)

theorem C7_create_load_round_trip_witness:
  "freshIds demoUuid (w_uuids demoWorld) (2 + 2) (w_db demoWorld)
   \<and> referentialIntegrity (w_db demoWorld)
   \<and> wellFormedIds demoUuid (w_uuids demoWorld) (2 + 2)
   \<and> wellFormed (js ''t'')
   \<and> (\<exists>conversation w'.
         createConversation demoUuid (js ''t'') 2 demoWorld = (Inr conversation, w')
         \<and> loadConversation (c_id conversation) w' = Some conversation
         \<and> c_topic conversation = js ''t''
         \<and> length (c_agents conversation) = 2)"
proof -
  have n: "(2::nat) \<le> 55231" by simp
  from C7_create_load_round_trip [OF demo_fresh demo_integrity demo_wellFormed wellFormed_js n,
      of "''t''"]
  obtain conversation w' where
    "createConversation demoUuid (js ''t'') 2 demoWorld = (Inr conversation, w')
         \<and> loadConversation (c_id conversation) w' = Some conversation
         \<and> c_topic conversation = js ''t''
         \<and> length (c_agents conversation) = 2"
    by auto
  then have "\<exists>conversation w'.
         createConversation demoUuid (js ''t'') 2 demoWorld = (Inr conversation, w')
         \<and> loadConversation (c_id conversation) w' = Some conversation
         \<and> c_topic conversation = js ''t''
         \<and> length (c_agents conversation) = 2"
    by - (rule exI, rule exI, assumption)
  with demo_fresh demo_integrity demo_wellFormed wellFormed_js [of "''t''"] show ?thesis
    by (intro conjI)
qed

section \<open>Public and private channels\<close>

lemma createAgents_thoughts:
  "createAgents uuidv4 cid idxs agents w = (Inr agents', w') \<Longrightarrow>
   \<forall>a\<in>set agents. a_privateThoughts a = [] \<Longrightarrow>
   \<forall>a\<in>set agents'. a_privateThoughts a = []"
proof (induction idxs arbitrary: agents w)
  case Nil
  then show ?case by simp
next
  case (Cons i rest)
  from Cons.prems(1) obtain d where
    r: "createAgents uuidv4 cid rest
         (agents @ [\<lparr>a_id = uuidv4 (w_uuids w), a_name = js ''User '' @ fromCharCode (65 + i),
                     a_systemPrompt = baseSystemPrompt, a_privateThoughts = []\<rparr>])
         (w\<lparr>w_uuids := w_uuids w + 1, w_db := d\<rparr>) = (Inr agents', w')"
    by (auto simp: Let_def split: sum.splits)
  from Cons.prems(2) have "\<forall>a\<in>set (agents @ [\<lparr>a_id = uuidv4 (w_uuids w),
      a_name = js ''User '' @ fromCharCode (65 + i),
      a_systemPrompt = baseSystemPrompt, a_privateThoughts = []\<rparr>]). a_privateThoughts a = []"
    by simp
  from Cons.IH [OF r this] show ?case .
qed

lemma createConversation_separated:
  assumes "createConversation uuidv4 topic n w = (Inr c, w1)"
  shows "transcriptSeparated c"
proof -
  from assms obtain d1 w2 where
    a: "createAgents uuidv4 (uuidv4 (w_uuids w)) [0..<n] []
       (w\<lparr>w_uuids := w_uuids w + 1, w_db := d1\<rparr>) = (Inr (c_agents c), w2)"
    and m: "\<forall>m\<in>set (c_messages c). \<not> m_isPrivate m"
    by (auto simp: createConversation_def Let_def split: sum.splits prod.splits)
  from createAgents_thoughts [OF a] have "\<forall>a\<in>set (c_agents c). a_privateThoughts a = []"
    by simp
  with m show ?thesis by (simp add: transcriptSeparated_def)
qed

lemma loadConversation_separated:
  assumes "loadConversation cid w = Some c"
  shows "transcriptSeparated c"
  using assms
  by (auto simp: loadConversation_def db_loadConversation_def transcriptSeparated_def
      getPublicMessagesForConversation_def getPrivateMessagesForAgent_def
      getAgentsForConversation_def dbMessageToMessage_def utf8Message_def utf8Agent_def
      toWellFormed_idem split: option.splits)

lemma generateAgentResponse_separated:
  assumes s: "transcriptSeparated c"
    and g: "generateAgentResponse llmService uuidv4 c idx w = (r, c', w')"
  shows "transcriptSeparated c'"
proof -
  from generateAgentResponse_outcome(2) [OF g]
  consider (same) "c' = c"
    | (appended) i pub priv where "i < length (c_agents c)"
        "\<not> m_isPrivate pub" "m_isPrivate priv" "m_agentId priv = Some (a_id (c_agents c ! i))"
        "c' = c\<lparr>c_messages := c_messages c @ [pub],
               c_agents := (c_agents c)
                 [i := (c_agents c ! i)
                    \<lparr>a_privateThoughts := a_privateThoughts (c_agents c ! i) @ [priv]\<rparr>],
               c_updatedAt := w_clock w'\<rparr>"
    by blast
  then show ?thesis
  proof cases
    case same
    with s show ?thesis by simp
  next
    case appended
    note f = appended(5)
    have m: "\<forall>m\<in>set (c_messages c'). \<not> m_isPrivate m"
      using s appended(2) by (auto simp: f transcriptSeparated_def)
    have "\<forall>m\<in>set (a_privateThoughts a). m_isPrivate m \<and> m_agentId m = Some (a_id a)"
      if "a \<in> set (c_agents c')" for a
    proof -
      from that obtain j where j: "j < length (c_agents c)" "a = c_agents c' ! j"
        by (auto simp: in_set_conv_nth f)
      then have "c_agents c ! j \<in> set (c_agents c)" by simp
      with s have old: "\<forall>m\<in>set (a_privateThoughts (c_agents c ! j)).
          m_isPrivate m \<and> m_agentId m = Some (a_id (c_agents c ! j))"
        unfolding transcriptSeparated_def by blast
      show ?thesis
      proof (cases "j = i")
        case True
        with j old appended(3,4) show ?thesis by (auto simp: f)
      next
        case False
        with j old show ?thesis by (simp add: f)
      qed
    qed
    with m show ?thesis by (simp add: transcriptSeparated_def)
  qed
qed

lemma agentLoop_separated:
  "transcriptSeparated c \<Longrightarrow> agentLoop llmService uuidv4 idxs c w = (r, c', w') \<Longrightarrow>
     transcriptSeparated c'"
proof (induction idxs arbitrary: c w)
  case Nil
  then show ?case by simp
next
  case (Cons i rest)
  obtain r1 c1 w1 where g: "generateAgentResponse llmService uuidv4 c (int i) w = (r1, c1, w1)"
    by (metis prod_cases3)
  from generateAgentResponse_separated [OF Cons.prems(1) g] have s1: "transcriptSeparated c1" .
  show ?case
  proof (cases r1)
    case None
    with Cons.prems(2) g have "agentLoop llmService uuidv4 rest c1 w1 = (r, c', w')" by simp
    from Cons.IH [OF s1 this] show ?thesis .
  next
    case (Some e)
    with Cons.prems(2) g s1 show ?thesis by simp
  qed
qed

lemma turnLoop_separated:
  "transcriptSeparated c \<Longrightarrow> turnLoop llmService uuidv4 n t c w = (r, c', w') \<Longrightarrow>
     transcriptSeparated c'"
proof (induction t arbitrary: c w)
  case 0
  then show ?case by simp
next
  case (Suc t)
  obtain r1 c1 w1 where a: "agentLoop llmService uuidv4 [0..<n] c w = (r1, c1, w1)"
    by (metis prod_cases3)
  from agentLoop_separated [OF Suc.prems(1) a] have s1: "transcriptSeparated c1" .
  show ?case
  proof (cases r1)
    case None
    with Suc.prems(2) a have "turnLoop llmService uuidv4 n t c1 w1 = (r, c', w')" by simp
    from Suc.IH [OF s1 this] show ?thesis .
  next
    case (Some e)
    with Suc.prems(2) a s1 show ?thesis by simp
  qed
qed

lemma runConversation_separated:
  "transcriptSeparated c \<Longrightarrow> runConversation llmService uuidv4 c t w = (r, c', w') \<Longrightarrow>
     transcriptSeparated c'"
  using turnLoop_separated [of c llmService uuidv4 "length (c_agents c)" t w r c' w']
  by (auto simp: runConversation_def Let_def split: if_splits)

lemma publicMessagesOf_public: "\<forall>m\<in>set (publicMessagesOf c). \<not> m_isPrivate m"
  by (simp add: publicMessagesOf_def)

lemma generateAgentResponse_cong:
  assumes "\<And>n p h t s. \<forall>m\<in>set h. \<not> m_isPrivate m \<Longrightarrow> llm1 n p h t s = llm2 n p h t s"
  shows "generateAgentResponse llm1 uuidv4 c idx w = generateAgentResponse llm2 uuidv4 c idx w"
proof -
  have "llm1 n p (publicMessagesOf c) t s = llm2 n p (publicMessagesOf c) t s" for n p t s
    by (rule assms) (rule publicMessagesOf_public)
  then show ?thesis by (simp add: generateAgentResponse_def)
qed

lemma agentLoop_cong:
  assumes "\<And>n p h t s. \<forall>m\<in>set h. \<not> m_isPrivate m \<Longrightarrow> llm1 n p h t s = llm2 n p h t s"
  shows "agentLoop llm1 uuidv4 idxs c w = agentLoop llm2 uuidv4 idxs c w"
  by (induction idxs arbitrary: c w)
    (simp_all add: generateAgentResponse_cong [of llm1 llm2, OF assms] split: prod.splits option.splits)

lemma turnLoop_cong:
  assumes "\<And>n p h t s. \<forall>m\<in>set h. \<not> m_isPrivate m \<Longrightarrow> llm1 n p h t s = llm2 n p h t s"
  shows "turnLoop llm1 uuidv4 k t c w = turnLoop llm2 uuidv4 k t c w"
  by (induction t arbitrary: c w)
    (simp_all add: agentLoop_cong [of llm1 llm2, OF assms] split: prod.splits option.splits)

text \<open>
  C10. The aggregates that \<open>createConversation\<close> and \<open>loadConversation\<close> produce
  have separated channels; \<open>generateAgentResponse\<close> and \<open>runConversation\<close> keep the
  channels separated, whatever their outcome; the history handed to the adapter holds
  public messages only; and so the Turn Engine behaves the same with any two adapters
  that agree on the histories without a private message.
\<close>

theorem C10_public_history_only:
  "(createConversation uuidv4 topic n w = (Inr created, w1) \<longrightarrow> transcriptSeparated created)
   \<and> (loadConversation cid w = Some loaded \<longrightarrow> transcriptSeparated loaded)
   \<and> (transcriptSeparated c \<and> generateAgentResponse llmService uuidv4 c idx w = (r, c', w')
        \<longrightarrow> transcriptSeparated c')
   \<and> (transcriptSeparated c \<and> runConversation llmService uuidv4 c t w = (r2, c2, w2)
        \<longrightarrow> transcriptSeparated c2)
   \<and> (\<forall>m\<in>set (publicMessagesOf c). \<not> m_isPrivate m)
   \<and> ((\<forall>name prompt history thoughts s.
          (\<forall>m\<in>set history. \<not> m_isPrivate m) \<longrightarrow>
            llmService name prompt history thoughts s = other name prompt history thoughts s)
        \<longrightarrow> generateAgentResponse llmService uuidv4 c idx w
              = generateAgentResponse other uuidv4 c idx w
            \<and> runConversation llmService uuidv4 c t w = runConversation other uuidv4 c t w)"
proof -
  have cong: "generateAgentResponse llmService uuidv4 c idx w
              = generateAgentResponse other uuidv4 c idx w
            \<and> runConversation llmService uuidv4 c t w = runConversation other uuidv4 c t w"
    if "\<forall>name prompt history thoughts s.
          (\<forall>m\<in>set history. \<not> m_isPrivate m) \<longrightarrow>
            llmService name prompt history thoughts s = other name prompt history thoughts s"
  proof -
    have eq: "llmService n p h t s = other n p h t s" if "\<forall>m\<in>set h. \<not> m_isPrivate m"
      for n p h t s
      using that \<open>\<forall>name prompt history thoughts s.
          (\<forall>m\<in>set history. \<not> m_isPrivate m) \<longrightarrow>
            llmService name prompt history thoughts s = other name prompt history thoughts s\<close>
      by blast
    show ?thesis
      using generateAgentResponse_cong [of llmService other uuidv4 c idx w, OF eq]
        turnLoop_cong [of llmService other uuidv4 "length (c_agents c)" t c w, OF eq]
      by (simp add: runConversation_def)
  qed
  show ?thesis
    using createConversation_separated [of uuidv4 topic n w created w1]
      loadConversation_separated [of cid w loaded]
      generateAgentResponse_separated [of c llmService uuidv4 idx w r c' w']
      runConversation_separated [of c llmService uuidv4 t w r2 c2 w2]
      publicMessagesOf_public [of c] cong
    by blast
qed

lemma demo_separated: "transcriptSeparated demoConversation"
  by (simp add: transcriptSeparated_def demoConversation_def demoSeed_def)

theorem C10_public_history_only_witness:
  "transcriptSeparated demoConversation
   \<and> (\<exists>c' w'. runConversation (llm_generateAgentResponse answeringBackend) demoUuid
          demoConversation 2 demoWorld = (Some TypeError, c', w') \<and> transcriptSeparated c')
   \<and> (\<exists>loaded. loadConversation (js ''c1'') demoWorld = Some loaded
          \<and> transcriptSeparated loaded)
   \<and> (\<exists>created w1. createConversation demoUuid (js ''t'') 2 demoWorld = (Inr created, w1)
          \<and> transcriptSeparated created)
   \<and> runConversation (llm_generateAgentResponse answeringBackend) demoUuid
          demoConversation 2 demoWorld
       = runConversation (pickyAdapter (llm_generateAgentResponse answeringBackend)) demoUuid
          demoConversation 2 demoWorld"
proof -
  have ne: "c_agents demoConversation \<noteq> []" "c_messages demoConversation \<noteq> []"
    and len: "0 < length (c_agents demoConversation)"
    by (simp_all add: demoConversation_def)
  obtain response returned llm1 where call:
    "llm_generateAgentResponse answeringBackend (a_name (c_agents demoConversation ! 0))
       (a_systemPrompt (c_agents demoConversation ! 0)) (publicMessagesOf demoConversation)
       (a_privateThoughts (c_agents demoConversation ! 0)) (w_clock demoWorld, w_llm demoWorld)
     = (response, returned, llm1)"
    by (metis prod_cases3)
  have acc: "storeAccepts demoUuid (w_uuids demoWorld) demoConversation
      (c_agents demoConversation ! 0) (w_db demoWorld)"
    by (rule demo_accepts) simp
  from generateAgentResponse_thrown [where llmService = "llm_generateAgentResponse answeringBackend"
      and i = 0 and conversation = demoConversation and w = demoWorld and ?uuidv4.0 = demoUuid,
      OF len call acc]
    runConversation_first [OF ne, of 2 "llm_generateAgentResponse answeringBackend" demoUuid
      demoWorld]
  obtain c' w' where
    r: "runConversation (llm_generateAgentResponse answeringBackend) demoUuid demoConversation 2
       demoWorld = (Some TypeError, c', w')" by simp
  obtain loaded where l: "loadConversation (js ''c1'') demoWorld = Some loaded"
    by (simp add: loadConversation_def db_loadConversation_def getConversation_def
        demoWorld_def demoDb_def toWellFormed_js)
  obtain created w1 where
    c: "createConversation demoUuid (js ''t'') 2 demoWorld = (Inr created, w1)"
    using demo_create
    by (cases "createConversation demoUuid (js ''t'') 2 demoWorld",
        cases "fst (createConversation demoUuid (js ''t'') 2 demoWorld)") auto
  note t = C10_public_history_only [where c = demoConversation and w = demoWorld
      and ?uuidv4.0 = demoUuid and llmService = "llm_generateAgentResponse answeringBackend"
      and t = 2 and ?r2.0 = "Some TypeError" and ?c2.0 = c' and ?w2.0 = w' and cid = "js ''c1''"
      and loaded = loaded and topic = "js ''t''" and n = 2 and created = created
      and ?w1.0 = w1
      and other = "pickyAdapter (llm_generateAgentResponse answeringBackend)"]
  have D: "runConversation (llm_generateAgentResponse answeringBackend) demoUuid
          demoConversation 2 demoWorld
       = runConversation (pickyAdapter (llm_generateAgentResponse answeringBackend)) demoUuid
          demoConversation 2 demoWorld"
    using t by (simp add: pickyAdapter_def list_all_iff)
  have A: "transcriptSeparated c'" using t r demo_separated by blast
  have B: "transcriptSeparated loaded" using t l by blast
  have C: "transcriptSeparated created" using t c by blast
  have 1: "\<exists>c' w'. runConversation (llm_generateAgentResponse answeringBackend) demoUuid
          demoConversation 2 demoWorld = (Some TypeError, c', w') \<and> transcriptSeparated c'"
    using r A by - (rule exI, rule exI, rule conjI, assumption+)
  have 2: "\<exists>loaded. loadConversation (js ''c1'') demoWorld = Some loaded
          \<and> transcriptSeparated loaded"
    using l B by - (rule exI, rule conjI, assumption+)
  have 3: "\<exists>created w1. createConversation demoUuid (js ''t'') 2 demoWorld = (Inr created, w1)
          \<and> transcriptSeparated created"
    using c C by - (rule exI, rule exI, rule conjI, assumption+)
  from demo_separated 1 2 3 D show ?thesis by (intro conjI)
qed

end
